theory Spec2Isabelle
  imports Main "HOL-Library.Sublist"
begin

section \<open>Python strings\<close>

text \<open>
  A Python \<open>str\<close> is a sequence of Unicode code points: \<open>len\<close> counts code points,
  \<open>strip\<close> and \<open>split\<close> look at code points. The templates of the generator are Korean,
  so a string is modelled as the list of its code points; \<open>ascii\<close> embeds the ASCII
  literals, every other literal is written out code point by code point.
\<close>

type_synonym codepoint = nat
type_synonym pystr = "codepoint list"

definition ascii :: "string \<Rightarrow> pystr" where
  "ascii s = map of_char s"

text \<open>
  The code points for which \<open>str.isspace\<close> holds; \<open>str.strip()\<close> and \<open>str.split()\<close>
  without arguments use exactly this set.
\<close>

definition is_space :: "codepoint \<Rightarrow> bool" where
  "is_space c \<longleftrightarrow>
     (9 \<le> c \<and> c \<le> 13) \<or> (28 \<le> c \<and> c \<le> 32) \<or> c = 133 \<or> c = 160 \<or> c = 5760 \<or>
     (8192 \<le> c \<and> c \<le> 8202) \<or> c = 8232 \<or> c = 8233 \<or> c = 8239 \<or> c = 8287 \<or> c = 12288"

definition strip :: "pystr \<Rightarrow> pystr" where
  "strip s = rev (dropWhile is_space (rev (dropWhile is_space s)))"

text \<open>
  \<open>text.split()\<close>: runs of whitespace separate the tokens, and no token is empty.
  \<open>split_from cur text\<close> scans \<open>text\<close> with the token \<open>cur\<close> read so far.
\<close>

fun split_from :: "pystr \<Rightarrow> pystr \<Rightarrow> pystr list" where
  "split_from cur [] = (if cur = [] then [] else [cur])"
| "split_from cur (c # cs) =
     (if is_space c then (if cur = [] then split_from [] cs else cur # split_from [] cs)
      else split_from (cur @ [c]) cs)"

definition split_ws :: "pystr \<Rightarrow> pystr list" where
  "split_ws text = split_from [] text"

text \<open>\<open>text.replace(ch, new)\<close> for a one-character \<open>ch\<close>.\<close>

definition replace_char :: "codepoint \<Rightarrow> pystr \<Rightarrow> pystr \<Rightarrow> pystr" where
  "replace_char ch new text = concat (map (\<lambda>c. if c = ch then new else [c]) text)"

text \<open>\<open>sep.join(parts)\<close>.\<close>

fun join :: "pystr \<Rightarrow> pystr list \<Rightarrow> pystr" where
  "join sep [] = []"
| "join sep [x] = x"
| "join sep (x # y # ys) = x @ sep @ join sep (y # ys)"

text \<open>
  \<open>xs[start:end]\<close> with integer bounds: a negative bound counts from the end, and both
  bounds are clamped to the list. \<open>xs[:end]\<close> is \<open>py_slice xs 0 end\<close>.
\<close>

definition clamp_index :: "int \<Rightarrow> int \<Rightarrow> int" where
  "clamp_index n i = (if i < 0 then max (i + n) 0 else min i n)"

definition py_slice :: "'a list \<Rightarrow> int \<Rightarrow> int \<Rightarrow> 'a list" where
  "py_slice xs start stop =
     (let n = int (length xs); s = clamp_index n start; e = clamp_index n stop
      in take (nat (e - s)) (drop (nat s) xs))"

section \<open>Keyword derivation (\<open>BlogPipeline._derive_keywords\<close>)\<close>

record ParsedPage =
  title :: "pystr option"
  meta_description :: "pystr option"
  body_text :: pystr

text \<open>
  The punctuation list of \<open>_tokenize_ko_simple\<close>, in the order of the source:
  comma, period, colon, semicolon, exclamation mark, question mark, parentheses,
  square brackets, braces, double quote, single quote.
\<close>

definition punctuation :: "codepoint list" where
  "punctuation = [44, 46, 58, 59, 33, 63, 40, 41, 91, 93, 123, 125, 34, 39]"

definition tokenize_ko_simple :: "pystr \<Rightarrow> pystr list" where
  "tokenize_ko_simple text =
     filter (\<lambda>t. t \<noteq> [])
       (split_ws (foldl (\<lambda>t ch. replace_char ch (ascii '' '') t) text punctuation))"

text \<open>
  The de-duplication loop of \<open>_derive_keywords\<close>: the seeds still to visit, the set
  \<open>seen\<close> and the list \<open>out\<close> built so far.
\<close>

fun dedup_loop :: "pystr list \<Rightarrow> pystr set \<Rightarrow> pystr list \<Rightarrow> pystr list" where
  "dedup_loop [] seen out = out"
| "dedup_loop (s # ss) seen out =
     (let s' = strip s in
      if s' = [] \<or> length s' < 2 then dedup_loop ss seen out
      else if s' \<in> seen then dedup_loop ss seen out
      else dedup_loop ss (insert s' seen) (out @ [s']))"

definition derive_keywords :: "ParsedPage \<Rightarrow> pystr \<Rightarrow> pystr list" where
  "derive_keywords parsed_page ttl =
     (let seeds = (if ttl \<noteq> [] then tokenize_ko_simple ttl else []) @
                  (case meta_description parsed_page of
                     None \<Rightarrow> []
                   | Some m \<Rightarrow> if m \<noteq> [] then tokenize_ko_simple m else [])
      in take 12 (dedup_loop seeds {} []))"

subsection \<open>The derivation as the specification words it\<close>

text \<open>
  Every punctuation mark becomes a blank, the text is split at whitespace, the tokens of
  the title come before those of the meta description, the first occurrence of a token
  wins, tokens shorter than two characters are dropped and at most twelve are kept.
\<close>

definition spec_tokenize :: "pystr \<Rightarrow> pystr list" where
  "spec_tokenize text = split_ws (map (\<lambda>c. if c \<in> set punctuation then 32 else c) text)"

fun first_occurrences :: "'a list \<Rightarrow> 'a list" where
  "first_occurrences [] = []"
| "first_occurrences (x # xs) = x # filter (\<lambda>y. y \<noteq> x) (first_occurrences xs)"

definition spec_keywords :: "pystr \<Rightarrow> pystr \<Rightarrow> pystr list" where
  "spec_keywords ttl meta =
     take 12 (first_occurrences
       (filter (\<lambda>t. 2 \<le> length t) (spec_tokenize ttl @ spec_tokenize meta)))"

text \<open>A token of the tokenizer: not empty, free of whitespace and of punctuation.\<close>

definition clean_token :: "pystr \<Rightarrow> bool" where
  "clean_token t \<longleftrightarrow> t \<noteq> [] \<and> (\<forall>c \<in> set t. \<not> is_space c \<and> c \<notin> set punctuation)"

section \<open>The post generator (\<open>BlogPostGenerator\<close>)\<close>

record CommentSummary =
  highlights :: "pystr list"
  pain_points :: "pystr list"
  wishes :: "pystr list"
  tone :: "pystr option"

text \<open>
  The summary built by \<open>_analyze_comments\<close> when there are no comments, and the default
  of the dataclass.
\<close>

definition empty_summary :: CommentSummary where
  "empty_summary = \<lparr>highlights = [], pain_points = [], wishes = [], tone = None\<rparr>"

text \<open>
  \<open>x or default\<close> on a string and on an optional string: the default is taken when
  \<open>x\<close> is empty or \<open>None\<close>.
\<close>

definition str_or :: "pystr \<Rightarrow> pystr \<Rightarrow> pystr" where
  "str_or s d = (if s = [] then d else s)"

definition opt_or :: "pystr option \<Rightarrow> pystr \<Rightarrow> pystr" where
  "opt_or t d = (case t of None \<Rightarrow> d | Some s \<Rightarrow> if s = [] then d else s)"

text \<open>
  The section names, in Korean: \<open>seoron\<close> (introduction), \<open>munje jegi\<close> (problem
  framing), \<open>jeongbo jegong\<close> (informative body), \<open>jeongni\<close> (wrap-up).
\<close>

definition sec_intro :: pystr where
  "sec_intro = [49436, 47200]"

definition sec_problem :: pystr where
  "sec_problem = [47928, 51228, 32, 51228, 44592]"

definition sec_info :: pystr where
  "sec_info = [51221, 48372, 32, 51228, 44277]"

definition sec_wrapup :: pystr where
  "sec_wrapup = [51221, 47532]"

definition section_order :: "pystr list" where
  "section_order = [sec_intro, sec_problem, sec_info, sec_wrapup]"

text \<open>The placeholder phrases, each named after the slot it fills.\<close>

definition ph_seo_hint :: pystr where
  "ph_seo_hint = [54645, 49900, 32, 54252, 51064, 53944]"

definition ph_tone_hint :: pystr where
  "ph_tone_hint = [46021, 51088, 32, 51032, 44204]"

definition ph_highlights :: pystr where
  "ph_highlights = [51452, 47785, 32, 48155, 51008, 32, 51032, 44204]"

definition ph_pain_points :: pystr where
  "ph_pain_points = [54644, 44208, 51060, 32, 54596, 50836, 54620, 32, 47928, 51228]"

definition ph_wishes :: pystr where
  "ph_wishes = [46021, 51088, 44032, 32, 48148, 46972, 45716, 32, 48169, 54693]"

definition ph_tone :: pystr where
  "ph_tone = [44557, 51221, 51201]"

definition ph_keywords :: pystr where
  "ph_keywords = [54645, 49900, 32, 53412, 50892, 46300]"

text \<open>The connective particle \<open>wa\<close> and a blank, which joins scattered keywords.\<close>

definition kw_sep :: pystr where
  "kw_sep = [50752, 32]"

definition build_outline :: "pystr \<Rightarrow> pystr list \<Rightarrow> pystr list" where
  "build_outline ttl keywords =
     (let seo_hint = (if keywords \<noteq> [] then join (ascii '', '') (py_slice keywords 0 3)
                      else ph_seo_hint)
      in [ascii ''# '' @ ttl,
          [45, 32, 51452, 51228, 32, 53412, 50892, 46300, 58, 32] @ seo_hint,
          [45, 32, 44396, 49457, 58, 32, 49436, 47200, 32, 8594, 32, 47928, 51228, 32, 51228,
           44592, 32, 8594, 32, 51221, 48372, 32, 51228, 44277, 32, 8594, 32, 51221, 47532]])"

definition build_subheading :: "pystr \<Rightarrow> pystr \<Rightarrow> CommentSummary \<Rightarrow> pystr" where
  "build_subheading section_name ttl comment_summary =
     (let tone_hint = opt_or (tone comment_summary) ph_tone_hint in
      if section_name = sec_intro then
        ttl @ [47484, 32, 49332, 54196, 48372, 44592, 32, 50948, 54620, 32, 52395, 44152, 51020]
      else if section_name = sec_problem then
        tone_hint @ [32, 49549, 50640, 49436, 32, 46300, 47084, 45212, 32, 44256, 48124]
      else if section_name = sec_info then
        [54645, 49900, 32, 51221, 48372, 50752, 32, 51201, 50857, 32, 54017]
      else
        [51221, 47532, 54616, 47728, 32, 49332, 54196, 48380, 32, 54645, 49900, 32, 54252,
         51064, 53944])"

definition scatter_keywords :: "int \<Rightarrow> pystr list \<Rightarrow> pystr" where
  "scatter_keywords keywords_per_section keywords =
     (if keywords = [] then ph_keywords
      else join kw_sep (py_slice keywords 0 keywords_per_section))"

definition build_paragraph :: "int \<Rightarrow> pystr \<Rightarrow> pystr list \<Rightarrow> CommentSummary \<Rightarrow> pystr" where
  "build_paragraph keywords_per_section section_name keywords comment_summary =
     (let keyword_text = scatter_keywords keywords_per_section keywords;
          hl = str_or (join (ascii '', '') (py_slice (highlights comment_summary) 0 2))
                 ph_highlights;
          pp = str_or (join (ascii '', '') (py_slice (pain_points comment_summary) 0 2))
                 ph_pain_points;
          ws = str_or (join (ascii '', '') (py_slice (wishes comment_summary) 0 2)) ph_wishes
      in
      if section_name = sec_intro then
        [51069, 44592, 32, 49772, 50868, 32, 55120, 47492, 51004, 47196, 32, 49884, 51089,
         54633, 45768, 45796, 46, 32] @ keyword_text @
        [47484, 32, 51088, 50672, 49828, 47101, 44172, 32, 45433, 50668, 32, 51452, 51228,
         47484, 32, 49548, 44060, 54616, 44256, 44, 32, 46021, 51088, 44032, 32, 44417, 44552,
         54644, 54624, 32, 51656, 47928, 51012, 32, 45912, 51665, 45768, 45796, 46]
      else if section_name = sec_problem then
        [45843, 44544, 50640, 49436, 32, 53945, 55176, 32, 50616, 44553, 46108, 32, 39] @ pp @
        [39, 47484, 32, 53664, 45824, 47196, 32, 47928, 51228, 47484, 32, 51221, 47532, 54633,
         45768, 45796, 46, 32] @ keyword_text @
        [47484, 32, 44284, 46020, 54616, 51648, 32, 50506, 44172, 32, 48176, 52824, 54644, 32,
         44277, 44048, 45824, 47484, 32, 54805, 49457, 54633, 45768, 45796, 46]
      else if section_name = sec_info then
        [49892, 51228, 32, 46021, 51088, 44032, 32, 44053, 51312, 54620, 32, 39] @ hl @
        [39, 50752, 32, 48148, 46972, 45716, 32, 39] @ ws @
        [39, 47484, 32, 51473, 49900, 51004, 47196, 32, 51221, 48372, 50752, 32, 49324, 47168,
         47484, 32, 51228, 49884, 54633, 45768, 45796, 46, 32] @ keyword_text @
        [45716, 32, 54876, 50857, 32, 54017, 44284, 32, 54632, 44760, 32, 48176, 52824, 54644,
         32, 44160, 49353, 32, 44032, 46021, 49457, 51012, 32, 45458, 51077, 45768, 45796, 46]
      else
        [50526, 49436, 32, 45796, 47340, 32, 45236, 50857, 51012, 32, 44036, 44208, 54616,
         44172, 32, 50836, 50557, 54616, 47728, 32] @ keyword_text @
        [47484, 32, 45796, 49884, 32, 54620, 32, 48264, 32, 51674, 49845, 45768, 45796, 46, 32,
         46021, 51088, 44032, 32, 48148, 47196, 32, 51201, 50857, 54624, 32, 49688, 32, 51080,
         45716, 32, 45796, 51020, 32, 54665, 46041, 51012, 32, 50504, 45236, 54616, 44256, 32,
         53668, 51012, 32, 39] @ opt_or (tone comment_summary) ph_tone @
        [39, 51004, 47196, 32, 50976, 51648, 54633, 45768, 45796, 46])"

definition build_section ::
  "int \<Rightarrow> pystr \<Rightarrow> pystr \<Rightarrow> pystr list \<Rightarrow> CommentSummary \<Rightarrow> pystr" where
  "build_section keywords_per_section section_name ttl keywords comment_summary =
     (let heading = ascii ''## '' @ section_name;
          subheading = build_subheading section_name ttl comment_summary;
          paragraph = build_paragraph keywords_per_section section_name keywords comment_summary
      in join [10] [heading, ascii ''### '' @ subheading, paragraph])"

definition keywords_for_section :: "int \<Rightarrow> pystr list \<Rightarrow> int \<Rightarrow> pystr list" where
  "keywords_for_section keywords_per_section keywords section_index =
     (let start = section_index * keywords_per_section;
          stop = start + keywords_per_section;
          chunk = py_slice keywords start stop
      in if chunk \<noteq> [] then chunk else py_slice keywords 0 keywords_per_section)"

text \<open>The comprehension \<open>[kw.strip() for kw in keywords if kw.strip()]\<close>.\<close>

definition sanitize_keywords :: "pystr list \<Rightarrow> pystr list" where
  "sanitize_keywords keywords = map strip (filter (\<lambda>kw. strip kw \<noteq> []) keywords)"

definition generate :: "int \<Rightarrow> pystr \<Rightarrow> pystr list \<Rightarrow> CommentSummary \<Rightarrow> pystr" where
  "generate keywords_per_section ttl keywords comment_summary =
     (let kws = sanitize_keywords keywords;
          outline = build_outline ttl kws;
          sections = map (\<lambda>(idx, section_name).
                        build_section keywords_per_section section_name ttl
                          (keywords_for_section keywords_per_section kws (int idx))
                          comment_summary)
                      (enumerate 0 section_order)
      in join [10, 10] (outline @ sections))"

section \<open>What a composed post contains\<close>

text \<open>
  The post is Markdown: its lines are separated by line feeds, and a section heading is
  a line that starts with two hash signs and a blank.
\<close>

fun split_lines :: "pystr \<Rightarrow> pystr list" where
  "split_lines [] = [[]]"
| "split_lines (c # cs) =
     (if c = 10 then [] # split_lines cs
      else (case split_lines cs of [] \<Rightarrow> [[c]] | l # ls \<Rightarrow> (c # l) # ls))"

definition is_heading_line :: "pystr \<Rightarrow> bool" where
  "is_heading_line l \<longleftrightarrow> take 3 l = ascii ''## ''"

definition heading_lines :: "pystr \<Rightarrow> pystr list" where
  "heading_lines s = filter is_heading_line (split_lines s)"

definition section_headings :: "pystr list" where
  "section_headings = map (\<lambda>name. ascii ''## '' @ name) section_order"

definition single_line :: "pystr \<Rightarrow> bool" where
  "single_line s \<longleftrightarrow> 10 \<notin> set s"

definition single_line_inputs :: "pystr \<Rightarrow> pystr list \<Rightarrow> CommentSummary \<Rightarrow> bool" where
  "single_line_inputs ttl keywords comment_summary \<longleftrightarrow>
     single_line ttl \<and> list_all single_line keywords \<and>
     list_all single_line (highlights comment_summary) \<and>
     list_all single_line (pain_points comment_summary) \<and>
     list_all single_line (wishes comment_summary) \<and>
     (case tone comment_summary of None \<Rightarrow> True | Some t \<Rightarrow> single_line t)"

text \<open>
  The two texts an unfilled slot would leave in the post: the word \<open>None\<close> and a pair
  of single quotes with nothing between them.
\<close>

definition none_text :: pystr where
  "none_text = ascii ''None''"

definition empty_quotes :: pystr where
  "empty_quotes = [39, 39]"

section \<open>Page parsing (\<open>parse_html\<close>)\<close>

datatype error = ValueError | TypeError | RequestException

text \<open>
  What \<open>parse_html\<close> reads from the parsed markup. \<open>title_tag\<close> is \<open>None\<close> when the page
  has no title tag, \<open>Some None\<close> when the tag has no single string, and holds the string
  otherwise; \<open>meta_tag\<close> is \<open>None\<close> when there is no description meta tag, \<open>Some None\<close>
  when the tag has no \<open>content\<close> attribute; \<open>visible_text\<close> is the text of the body once
  scripts, styles and templates are removed.
\<close>

record Soup =
  title_tag :: "pystr option option"
  meta_tag :: "pystr option option"
  visible_text :: pystr

text \<open>
  What the analyzer may return: a summary, a dict, or any other value.
\<close>

datatype PyValue = PyNone | PyInt int | PyStr pystr | PyList "PyValue list"

text \<open>
  A dict, read at the four keys the controller looks up: each
  key is absent (\<open>None\<close>) or bound to a value of the type the dataclass annotates. Other
  keys are never read.
\<close>

record InsightDict =
  key_highlights :: "pystr list option"
  key_pain_points :: "pystr list option"
  key_wishes :: "pystr list option"
  key_tone :: "pystr option option"

datatype Analyzed = IsSummary CommentSummary | IsDict InsightDict | IsOther PyValue

record TitleArgs =
  arg_base_title :: pystr
  arg_meta_description :: pystr
  arg_highlights :: "pystr list"
  arg_pain_points :: "pystr list"
  arg_wishes :: "pystr list"
  arg_body_text :: "pystr option"

text \<open>
  The collaborators that are not part of the core: URL recognition, the HTTP fetch, the
  markup parser, the comment analyzer and the title generator. A collaborator that can
  raise returns an error instead.
\<close>

record Collaborators =
  is_url :: "pystr \<Rightarrow> bool"
  fetch_html :: "pystr \<Rightarrow> error + pystr"
  make_soup :: "pystr \<Rightarrow> Soup"
  summarize :: "pystr list \<Rightarrow> error + Analyzed"
  title_generate :: "TitleArgs \<Rightarrow> error + pystr"

text \<open>The calls a run makes, in order: the trace of a run.\<close>

datatype Call =
  ParseHtmlCall pystr
| FetchCall pystr
| SummarizeCall "pystr list"
| TitleCall TitleArgs

text \<open>\<open>x or ""\<close> on an optional string.\<close>

definition opt_str :: "pystr option \<Rightarrow> pystr" where
  "opt_str x = (case x of None \<Rightarrow> [] | Some s \<Rightarrow> s)"

text \<open>
  \<open>str.splitlines()\<close>: a line ends at a line feed, a carriage return (with the line feed
  that follows it, if any), a vertical tab, a form feed, a file, group or record
  separator, a next-line character, or a Unicode line or paragraph separator.
  \<open>skip_lf\<close> says that the previous character was a carriage return.
\<close>

definition is_line_boundary :: "codepoint \<Rightarrow> bool" where
  "is_line_boundary c \<longleftrightarrow>
     (10 \<le> c \<and> c \<le> 13) \<or> (28 \<le> c \<and> c \<le> 30) \<or> c = 133 \<or> c = 8232 \<or> c = 8233"

fun splitlines_from :: "bool \<Rightarrow> pystr \<Rightarrow> pystr \<Rightarrow> pystr list" where
  "splitlines_from skip_lf cur [] = (if cur = [] then [] else [cur])"
| "splitlines_from skip_lf cur (c # cs) =
     (if skip_lf \<and> c = 10 then splitlines_from False cur cs
      else if is_line_boundary c then cur # splitlines_from (c = 13) [] cs
      else splitlines_from False (cur @ [c]) cs)"

definition splitlines :: "pystr \<Rightarrow> pystr list" where
  "splitlines s = splitlines_from False [] s"

definition extract_meta_description :: "Soup \<Rightarrow> pystr option" where
  "extract_meta_description soup =
     (case meta_tag soup of
        None \<Rightarrow> None
      | Some None \<Rightarrow> None
      | Some (Some content) \<Rightarrow> if content \<noteq> [] then Some (strip content) else None)"

definition clean_body_text :: "Soup \<Rightarrow> pystr" where
  "clean_body_text soup =
     join [10] (filter (\<lambda>line. line \<noteq> []) (splitlines (visible_text soup)))"

definition page_of_soup :: "Soup \<Rightarrow> ParsedPage" where
  "page_of_soup soup =
     \<lparr>title = (case title_tag soup of
                 None \<Rightarrow> None
               | Some None \<Rightarrow> None
               | Some (Some s) \<Rightarrow> if s \<noteq> [] then Some (strip s) else None),
      meta_description = extract_meta_description soup,
      body_text = clean_body_text soup\<rparr>"

definition parse_html :: "Collaborators \<Rightarrow> pystr \<Rightarrow> Call list \<times> (error + ParsedPage)" where
  "parse_html env source =
     (if source = [] \<or> strip source = [] then ([], Inl ValueError)
      else if is_url env source then
        (case fetch_html env source of
           Inl e \<Rightarrow> ([FetchCall source], Inl e)
         | Inr markup \<Rightarrow> ([FetchCall source], Inr (page_of_soup (make_soup env markup))))
      else ([], Inr (page_of_soup (make_soup env source))))"

section \<open>The pipeline controller (\<open>BlogPipeline\<close>)\<close>

record PipelineInput =
  url :: "pystr option"
  html :: "pystr option"
  youtube_video_id :: "pystr option"
  comments :: "pystr list option"

text \<open>
  \<open>parsed\<close> is the dict of the three page fields and \<open>comment_summary\<close> the dict
  \<open>asdict\<close> makes of the summary; both are kept as the records they copy.
\<close>

record PipelineOutput =
  parsed :: ParsedPage
  comment_summary :: CommentSummary
  output_title :: pystr
  blog_post :: pystr

text \<open>\<open>mapping.get(key, default)\<close> at one of the four keys.\<close>

definition dict_get :: "'a option \<Rightarrow> 'a \<Rightarrow> 'a" where
  "dict_get entry dflt = (case entry of None \<Rightarrow> dflt | Some v \<Rightarrow> v)"

definition analyze_comments ::
  "Collaborators \<Rightarrow> pystr list \<Rightarrow> Call list \<times> (error + CommentSummary)" where
  "analyze_comments env cmts =
     (if cmts = [] then ([], Inr empty_summary)
      else
        (case summarize env cmts of
           Inl e \<Rightarrow> ([SummarizeCall cmts], Inl e)
         | Inr analyzed \<Rightarrow>
             ([SummarizeCall cmts],
              (case analyzed of
                 IsSummary s \<Rightarrow> Inr s
               | IsDict d \<Rightarrow>
                   Inr \<lparr>highlights = dict_get (key_highlights d) [],
                        pain_points = dict_get (key_pain_points d) [],
                        wishes = dict_get (key_wishes d) [],
                        tone = dict_get (key_tone d) None\<rparr>
               | IsOther v \<Rightarrow> Inl TypeError))))"

definition generate_title ::
  "Collaborators \<Rightarrow> ParsedPage \<Rightarrow> CommentSummary \<Rightarrow> Call list \<times> (error + pystr)" where
  "generate_title env parsed_page cs =
     (let base_title = strip (opt_str (title parsed_page)) in
      if base_title \<noteq> [] then
        (let args = \<lparr>arg_base_title = base_title,
                      arg_meta_description = opt_str (meta_description parsed_page),
                      arg_highlights = highlights cs,
                      arg_pain_points = pain_points cs,
                      arg_wishes = wishes cs,
                      arg_body_text = None\<rparr>
         in ([TitleCall args], title_generate env args))
      else
        (let args = \<lparr>arg_base_title = [],
                      arg_meta_description = opt_str (meta_description parsed_page),
                      arg_highlights = highlights cs,
                      arg_pain_points = pain_points cs,
                      arg_wishes = wishes cs,
                      arg_body_text = Some (body_text parsed_page)\<rparr>
         in ([TitleCall args], title_generate env args)))"

text \<open>The content source of a run: \<open>inp.url if inp.url else inp.html\<close>.\<close>

definition content_source :: "PipelineInput \<Rightarrow> pystr" where
  "content_source inp =
     (if opt_str (url inp) \<noteq> [] then opt_str (url inp) else opt_str (html inp))"

text \<open>
  \<open>run\<close>, with the generator at its default of two keywords per section. The result is
  the trace of calls made and the output, or the error that ended the run.
\<close>

definition run :: "Collaborators \<Rightarrow> PipelineInput \<Rightarrow> Call list \<times> (error + PipelineOutput)" where
  "run env inp =
     (if opt_str (url inp) = [] \<and> opt_str (html inp) = [] then ([], Inl ValueError)
      else
        (let source = content_source inp;
             (t1, r1) = parse_html env source
         in case r1 of
              Inl e \<Rightarrow> (ParseHtmlCall source # t1, Inl e)
            | Inr parsed_page \<Rightarrow>
                (let cmts = (case comments inp of None \<Rightarrow> [] | Some c \<Rightarrow> c);
                     (t2, r2) = analyze_comments env cmts
                 in case r2 of
                      Inl e \<Rightarrow> (ParseHtmlCall source # t1 @ t2, Inl e)
                    | Inr cs \<Rightarrow>
                        (let (t3, r3) = generate_title env parsed_page cs
                         in case r3 of
                              Inl e \<Rightarrow> (ParseHtmlCall source # t1 @ t2 @ t3, Inl e)
                            | Inr ttl \<Rightarrow>
                                (let keywords = derive_keywords parsed_page ttl;
                                     post = generate 2 ttl keywords cs
                                 in (ParseHtmlCall source # t1 @ t2 @ t3,
                                     Inr \<lparr>parsed = parsed_page,
                                          comment_summary = cs,
                                          output_title = ttl,
                                          blog_post = post\<rparr>))))))"

text \<open>
  Collaborators for the examples: nothing is a URL, the parser finds the title \<open>Test\<close>
  and the description \<open>desc\<close> in the markup \<open><p>x</p>\<close> and neither title nor
  description in any other markup, the analyzer answers the comment \<open>a\<close> with a summary,
  the comment \<open>b\<close> with a dict that has only the key \<open>wishes\<close>, and anything else with
  the integer 5; the title generator returns the base title.
\<close>

definition example_collaborators :: Collaborators where
  "example_collaborators =
     \<lparr>is_url = (\<lambda>s. False),
      fetch_html = (\<lambda>s. Inl RequestException),
      make_soup = (\<lambda>s. if s = ascii ''<p>x</p>''
                       then \<lparr>title_tag = Some (Some (ascii ''Test'')),
                             meta_tag = Some (Some (ascii ''desc'')),
                             visible_text = ascii ''body''\<rparr>
                       else \<lparr>title_tag = None, meta_tag = None, visible_text = s\<rparr>),
      summarize = (\<lambda>c. if c = [ascii ''a'']
                       then Inr (IsSummary \<lparr>highlights = [ascii ''great tips''], pain_points = [],
                                             wishes = [], tone = Some (ascii ''warm'')\<rparr>)
                       else if c = [ascii ''b'']
                       then Inr (IsDict \<lparr>key_highlights = None, key_pain_points = None,
                                          key_wishes = Some [ascii ''want video''],
                                          key_tone = None\<rparr>)
                       else Inr (IsOther (PyInt 5))),
      title_generate = (\<lambda>a. Inr (arg_base_title a))\<rparr>"

section \<open>Strings: basic facts\<close>

lemma ascii_blank: "ascii '' '' = [32]"
  by (simp add: ascii_def)

lemma strip_no_space: "\<forall>c \<in> set s. \<not> is_space c \<Longrightarrow> strip s = s"
proof -
  assume a: "\<forall>c \<in> set s. \<not> is_space c"
  have "dropWhile is_space s = s"
    using a by (cases s) auto
  moreover have "dropWhile is_space (rev s) = rev s"
    using a by (cases "rev s") (auto simp: Cons_eq_append_conv dest!: arg_cong[where f = set])
  ultimately show ?thesis by (simp add: strip_def)
qed

lemma split_from_tokens:
  "\<forall>c \<in> set cur. \<not> is_space c \<Longrightarrow> t \<in> set (split_from cur s) \<Longrightarrow>
     t \<noteq> [] \<and> (\<forall>c \<in> set t. \<not> is_space c)"
proof (induction s arbitrary: cur)
  case Nil
  then show ?case by (simp split: if_splits)
next
  case (Cons a s)
  show ?case
  proof (cases "is_space a")
    case True
    then have "t = cur \<and> cur \<noteq> [] \<or> t \<in> set (split_from [] s)"
      using Cons.prems(2) by (simp split: if_splits)
    then show ?thesis
      using Cons.prems(1) Cons.IH[of "[]"] by auto
  next
    case False
    then have "t \<in> set (split_from (cur @ [a]) s)"
      using Cons.prems(2) by simp
    moreover have "\<forall>c \<in> set (cur @ [a]). \<not> is_space c"
      using Cons.prems(1) False by simp
    ultimately show ?thesis
      by (rule Cons.IH[rotated])
  qed
qed

lemma split_from_chars:
  "t \<in> set (split_from cur s) \<Longrightarrow> set t \<subseteq> set cur \<union> set s"
proof (induction s arbitrary: cur)
  case Nil
  then show ?case by (simp split: if_splits)
next
  case (Cons a s)
  show ?case
  proof (cases "is_space a")
    case True
    then have "t = cur \<or> t \<in> set (split_from [] s)"
      using Cons.prems by (simp split: if_splits)
    then show ?thesis
      using Cons.IH[of "[]"] by auto
  next
    case False
    then have "t \<in> set (split_from (cur @ [a]) s)"
      using Cons.prems by simp
    then show ?thesis
      using Cons.IH[of "cur @ [a]"] by auto
  qed
qed

section \<open>The tokenizer and the de-duplication loop\<close>

lemma replace_char_blank:
  "replace_char ch (ascii '' '') s = map (\<lambda>c. if c = ch then 32 else c) s"
  by (induction s) (simp_all add: replace_char_def ascii_blank)

lemma foldl_replace:
  "foldl (\<lambda>t ch. replace_char ch (ascii '' '') t) s ps =
     map (\<lambda>c. if c \<in> set ps then 32 else c) s"
proof (induction ps arbitrary: s)
  case Nil
  show ?case by simp
next
  case (Cons p ps)
  show ?case
    unfolding foldl_Cons Cons.IH
    by (auto simp: replace_char_blank)
qed

lemma split_ws_nonempty: "t \<in> set (split_ws u) \<Longrightarrow> t \<noteq> []"
  using split_from_tokens[of "[]" t u] by (simp add: split_ws_def)

lemma tokenize_spec: "tokenize_ko_simple s = spec_tokenize s"
proof -
  have "filter (\<lambda>t. t \<noteq> []) (split_ws u) = split_ws u" for u
    by (rule filter_True) (simp add: split_ws_nonempty)
  then show ?thesis
    by (simp add: tokenize_ko_simple_def spec_tokenize_def foldl_replace)
qed


lemma blank_not_punctuation: "32 \<notin> set punctuation"
  by (simp add: punctuation_def)

lemma spec_tokenize_clean: "t \<in> set (spec_tokenize s) \<Longrightarrow> clean_token t"
proof -
  assume a: "t \<in> set (spec_tokenize s)"
  define m where "m = map (\<lambda>c. if c \<in> set punctuation then 32 else c) s"
  have tm: "t \<in> set (split_from [] m)"
    using a by (simp add: spec_tokenize_def split_ws_def m_def)
  have 1: "t \<noteq> [] \<and> (\<forall>c \<in> set t. \<not> is_space c)"
    using tm split_from_tokens[of "[]" t m] by simp
  have 2: "set t \<subseteq> set m"
    using tm split_from_chars[of t "[]" m] by simp
  have 3: "c \<notin> set punctuation" if "c \<in> set m" for c
  proof -
    from that have "\<exists>d. c = (if d \<in> set punctuation then 32 else d)"
      unfolding m_def set_map by blast
    then obtain d where "c = (if d \<in> set punctuation then 32 else d)" ..
    then show ?thesis
      using blank_not_punctuation by (cases "d \<in> set punctuation") simp_all
  qed
  have "\<forall>c \<in> set t. c \<notin> set punctuation"
    using 2 3 by blast
  then show ?thesis using 1 by (simp add: clean_token_def)
qed

lemma set_first_occurrences: "set (first_occurrences xs) = set xs"
  by (induction xs) auto

lemma distinct_first_occurrences: "distinct (first_occurrences xs)"
  by (induction xs) (simp_all add: set_first_occurrences)

lemma first_occurrences_distinct: "distinct xs \<Longrightarrow> first_occurrences xs = xs"
proof (induction xs)
  case Nil
  show ?case by simp
next
  case (Cons x xs)
  then have "first_occurrences xs = xs" and "x \<notin> set xs" by simp_all
  moreover from \<open>x \<notin> set xs\<close> have "filter (\<lambda>y. y \<noteq> x) xs = xs"
    unfolding filter_id_conv by blast
  ultimately show ?case by simp
qed

lemma dedup_loop_eq:
  "seen = set out \<Longrightarrow>
   dedup_loop ss seen out =
     out @ filter (\<lambda>s. s \<notin> seen)
             (first_occurrences (filter (\<lambda>s. 2 \<le> length s) (map strip ss)))"
proof (induction ss arbitrary: seen out)
  case Nil
  show ?case by simp
next
  case (Cons s ss)
  let ?rest = "first_occurrences (filter (\<lambda>s. 2 \<le> length s) (map strip ss))"
  show ?case
  proof (cases "2 \<le> length (strip s)")
    case False
    then have "dedup_loop (s # ss) seen out = dedup_loop ss seen out"
      by (auto simp: Let_def)
    then show ?thesis
      using False Cons.IH[OF Cons.prems] by simp
  next
    case long: True
    show ?thesis
    proof (cases "strip s \<in> seen")
      case True
      then have "dedup_loop (s # ss) seen out = dedup_loop ss seen out"
        using long by (auto simp: Let_def)
      moreover have "filter (\<lambda>x. x \<notin> seen) (filter (\<lambda>y. y \<noteq> strip s) ?rest) =
                     filter (\<lambda>x. x \<notin> seen) ?rest"
        unfolding filter_filter using True by (intro filter_cong) auto
      ultimately show ?thesis
        using long True Cons.IH[OF Cons.prems] by simp
    next
      case False
      have ne: "strip s \<noteq> []" using long by auto
      have "dedup_loop (s # ss) seen out =
              dedup_loop ss (insert (strip s) seen) (out @ [strip s])"
        using long False ne by (simp add: Let_def)
      also have "\<dots> = (out @ [strip s]) @ filter (\<lambda>x. x \<notin> insert (strip s) seen) ?rest"
        by (rule Cons.IH) (simp add: Cons.prems)
      also have "filter (\<lambda>x. x \<notin> insert (strip s) seen) ?rest =
                 filter (\<lambda>x. x \<notin> seen) (filter (\<lambda>y. y \<noteq> strip s) ?rest)"
        unfolding filter_filter by (intro filter_cong) auto
      finally show ?thesis
        using long False by simp
    qed
  qed
qed

lemma map_strip_tokens: "map strip (spec_tokenize s) = spec_tokenize s"
proof -
  have "strip t = t" if "t \<in> set (spec_tokenize s)" for t
    using spec_tokenize_clean[OF that] by (intro strip_no_space) (simp add: clean_token_def)
  then show ?thesis
    by (simp add: map_idI)
qed

lemma spec_tokenize_Nil: "spec_tokenize [] = []"
  by (simp add: spec_tokenize_def split_ws_def)

lemma derive_keywords_spec:
  "derive_keywords parsed_page ttl =
     spec_keywords ttl (case meta_description parsed_page of None \<Rightarrow> [] | Some m \<Rightarrow> m)"
proof -
  define seeds where "seeds = spec_tokenize ttl @
     spec_tokenize (case meta_description parsed_page of None \<Rightarrow> [] | Some m \<Rightarrow> m)"
  have 1: "derive_keywords parsed_page ttl = take 12 (dedup_loop seeds {} [])"
    by (simp add: derive_keywords_def seeds_def tokenize_spec spec_tokenize_Nil
          split: option.splits)
  have 2: "map strip seeds = seeds"
    by (simp add: seeds_def map_strip_tokens)
  have "dedup_loop seeds {} [] = first_occurrences (filter (\<lambda>s. 2 \<le> length s) seeds)"
    using dedup_loop_eq[of "{}" "[]" seeds] 2 by simp
  then show ?thesis
    using 1 by (simp add: spec_keywords_def seeds_def)
qed

lemma spec_keywords_props:
  "distinct (spec_keywords ttl meta) \<and> (\<forall>k \<in> set (spec_keywords ttl meta). 2 \<le> length k) \<and>
   length (spec_keywords ttl meta) \<le> 12"
proof -
  let ?xs = "filter (\<lambda>t. 2 \<le> length t) (spec_tokenize ttl @ spec_tokenize meta)"
  have "set (take 12 (first_occurrences ?xs)) \<subseteq> set ?xs"
    using set_take_subset[of 12 "first_occurrences ?xs"] by (simp only: set_first_occurrences)
  then have k: "\<forall>k \<in> set (spec_keywords ttl meta). 2 \<le> length k"
    unfolding spec_keywords_def by auto
  have d: "distinct (spec_keywords ttl meta)"
    unfolding spec_keywords_def by (rule distinct_take) (rule distinct_first_occurrences)
  have l: "length (spec_keywords ttl meta) \<le> 12"
    unfolding spec_keywords_def by simp
  show ?thesis
    using k d l by blast
qed

text \<open>
  C3. For every title and meta description, the derived keyword list is the one the
  specification describes (punctuation replaced by blanks, split at whitespace, title
  tokens before meta-description tokens, first occurrence kept, tokens shorter than two
  characters dropped, the first twelve kept); it has no duplicates, no entry shorter than
  two characters, and at most twelve entries.
\<close>

theorem derive_keywords_correct:
  "derive_keywords parsed_page ttl =
     spec_keywords ttl (case meta_description parsed_page of None \<Rightarrow> [] | Some m \<Rightarrow> m) \<and>
   distinct (derive_keywords parsed_page ttl) \<and>
   (\<forall>k \<in> set (derive_keywords parsed_page ttl). 2 \<le> length k) \<and>
   length (derive_keywords parsed_page ttl) \<le> 12"
  unfolding derive_keywords_spec
  by (rule conjI[OF refl]) (rule spec_keywords_props)

lemmas eval_str = ascii_def is_space_def strip_def split_ws_def replace_char_def
  punctuation_def tokenize_ko_simple_def

theorem derive_keywords_correct_witness:
  "derive_keywords \<lparr>title = None, meta_description = Some (ascii ''a yz, cd''), body_text = []\<rparr>
       (ascii ''ab, cd ab'') = [ascii ''ab'', ascii ''cd'', ascii ''yz''] \<and>
   list_all (\<lambda>k. 2 \<le> length k) (derive_keywords
        \<lparr>title = None, meta_description = Some (ascii ''a yz, cd''), body_text = []\<rparr>
        (ascii ''ab, cd ab''))"
proof -
  let ?page = "\<lparr>title = None, meta_description = Some (ascii ''a yz, cd''), body_text = []\<rparr>"
  have "derive_keywords ?page (ascii ''ab, cd ab'') = [ascii ''ab'', ascii ''cd'', ascii ''yz'']"
    by (simp add: derive_keywords_def eval_str)
  moreover have "\<forall>k \<in> set (derive_keywords ?page (ascii ''ab, cd ab'')). 2 \<le> length k"
    using derive_keywords_correct[of ?page "ascii ''ab, cd ab''"] by blast
  ultimately show ?thesis unfolding list_all_iff by blast
qed

section \<open>Deriving keywords from derived keywords\<close>

lemma split_from_append:
  "\<forall>c \<in> set k. \<not> is_space c \<Longrightarrow> split_from cur (k @ rest) = split_from (cur @ k) rest"
  by (induction k arbitrary: cur) simp_all

lemma split_ws_join:
  "\<forall>k \<in> set ks. k \<noteq> [] \<and> (\<forall>c \<in> set k. \<not> is_space c) \<Longrightarrow>
     split_ws (join (ascii '' '') ks) = ks"
proof (induction "ascii '' ''" ks rule: join.induct)
  case 1
  show ?case by (simp add: split_ws_def)
next
  case (2 x)
  then have "split_from [] (x @ []) = split_from ([] @ x) []"
    by (intro split_from_append) simp
  then show ?case using 2 by (simp add: split_ws_def)
next
  case (3 x y ys)
  have sp: "is_space 32" by (simp add: is_space_def)
  have "split_from [] (x @ 32 # join [32] (y # ys)) = split_from ([] @ x) (32 # join [32] (y # ys))"
    using 3(2) by (intro split_from_append) simp
  also have "\<dots> = x # split_from [] (join [32] (y # ys))"
    using 3(2) sp by simp
  also have "split_from [] (join [32] (y # ys)) = y # ys"
    using 3 by (simp add: split_ws_def ascii_blank)
  finally show ?case
    by (simp add: split_ws_def ascii_blank)
qed

lemma spec_tokenize_join:
  assumes "\<forall>k \<in> set ks. clean_token k"
  shows "spec_tokenize (join (ascii '' '') ks) = ks"
proof -
  have chars: "set (join [32] ks) \<subseteq> insert 32 (\<Union>k \<in> set ks. set k)" for ks :: "pystr list"
    by (induction "[32::nat]" ks rule: join.induct) auto
  have "c \<notin> set punctuation" if "c \<in> set (join [32] ks)" for c
  proof (cases "c = 32")
    case True
    then show ?thesis by (simp add: blank_not_punctuation)
  next
    case False
    have "c \<in> insert 32 (\<Union>k \<in> set ks. set k)"
      using that chars[of ks] by blast
    then obtain k where "k \<in> set ks" "c \<in> set k"
      using False by blast
    then show ?thesis using assms by (auto simp: clean_token_def)
  qed
  then have "map (\<lambda>c. if c \<in> set punctuation then 32 else c) (join [32] ks) = join [32] ks"
    by (intro map_idI) simp
  moreover have "split_ws (join (ascii '' '') ks) = ks"
    using assms by (intro split_ws_join) (simp add: clean_token_def)
  ultimately show ?thesis
    by (simp add: spec_tokenize_def ascii_blank)
qed

lemma spec_keywords_clean: "k \<in> set (spec_keywords ttl meta) \<Longrightarrow> clean_token k"
proof -
  assume "k \<in> set (spec_keywords ttl meta)"
  then have "k \<in> set (first_occurrences
       (filter (\<lambda>t. 2 \<le> length t) (spec_tokenize ttl @ spec_tokenize meta)))"
    unfolding spec_keywords_def by (rule in_set_takeD)
  then have "k \<in> set (spec_tokenize ttl) \<or> k \<in> set (spec_tokenize meta)"
    unfolding set_first_occurrences by auto
  then show ?thesis
    using spec_tokenize_clean by blast
qed

lemma spec_keywords_fixpoint:
  assumes "ks = spec_keywords ttl meta"
  shows "spec_keywords (join (ascii '' '') ks) [] = ks"
proof -
  have p: "distinct ks" "\<forall>k \<in> set ks. 2 \<le> length k" "length ks \<le> 12"
    using spec_keywords_props[of ttl meta] assms by simp_all
  have "\<forall>k \<in> set ks. clean_token k"
    using spec_keywords_clean assms by blast
  then have "spec_tokenize (join (ascii '' '') ks) = ks"
    by (rule spec_tokenize_join)
  moreover have "filter (\<lambda>t. 2 \<le> length t) ks = ks"
    using p(2) by (intro filter_True) simp
  ultimately show ?thesis
    using p(1,3) by (simp add: spec_keywords_def spec_tokenize_Nil first_occurrences_distinct)
qed

text \<open>
  C7. Joining the derived keyword list with single blanks and deriving keywords again
  from the joined string, with no or an empty meta description, gives the same list.
\<close>

theorem derive_keywords_idempotent:
  assumes "meta_description page2 = None \<or> meta_description page2 = Some []"
  shows "derive_keywords page2 (join (ascii '' '') (derive_keywords parsed_page ttl)) =
           derive_keywords parsed_page ttl"
proof -
  have "(case meta_description page2 of None \<Rightarrow> [] | Some m \<Rightarrow> m) = []"
    using assms by auto
  then show ?thesis
    unfolding derive_keywords_spec by (simp add: spec_keywords_fixpoint)
qed

theorem derive_keywords_idempotent_witness:
  "derive_keywords \<lparr>title = None, meta_description = Some (ascii ''a yz, cd''), body_text = []\<rparr>
       (ascii ''ab, cd ab'') = [ascii ''ab'', ascii ''cd'', ascii ''yz''] \<and>
   join (ascii '' '') [ascii ''ab'', ascii ''cd'', ascii ''yz''] = ascii ''ab cd yz'' \<and>
   derive_keywords \<lparr>title = None, meta_description = Some [], body_text = []\<rparr>
       (ascii ''ab cd yz'') = [ascii ''ab'', ascii ''cd'', ascii ''yz'']"
proof -
  let ?page = "\<lparr>title = None, meta_description = Some (ascii ''a yz, cd''), body_text = []\<rparr>"
  let ?page2 = "\<lparr>title = None, meta_description = Some [], body_text = []\<rparr>"
  have 1: "derive_keywords ?page (ascii ''ab, cd ab'') = [ascii ''ab'', ascii ''cd'', ascii ''yz'']"
    by (simp add: derive_keywords_def eval_str)
  have 2: "join (ascii '' '') [ascii ''ab'', ascii ''cd'', ascii ''yz''] = ascii ''ab cd yz''"
    by (simp add: ascii_def)
  have "meta_description ?page2 = None \<or> meta_description ?page2 = Some []"
    by simp
  from derive_keywords_idempotent[OF this, of ?page "ascii ''ab, cd ab''"]
  have "derive_keywords ?page2 (ascii ''ab cd yz'') = [ascii ''ab'', ascii ''cd'', ascii ''yz'']"
    unfolding 1 2 .
  with 1 2 show ?thesis by blast
qed

section \<open>Keyword chunks\<close>

lemmas eval_gen = generate_def sanitize_keywords_def build_outline_def build_section_def
  build_subheading_def build_paragraph_def scatter_keywords_def keywords_for_section_def
  py_slice_def clamp_index_def str_or_def opt_or_def section_order_def
  sec_intro_def sec_problem_def sec_info_def sec_wrapup_def
  ph_seo_hint_def ph_tone_hint_def ph_highlights_def ph_pain_points_def ph_wishes_def
  ph_tone_def ph_keywords_def kw_sep_def

lemma py_slice_prefix: "0 \<le> n \<Longrightarrow> py_slice xs 0 n = take (nat n) xs"
  by (auto simp: py_slice_def clamp_index_def Let_def min_def)

lemma py_slice_window:
  "0 \<le> start \<Longrightarrow> 0 \<le> n \<Longrightarrow> py_slice xs start (start + n) = take (nat n) (drop (nat start) xs)"
proof -
  assume a: "0 \<le> start" "0 \<le> n"
  let ?len = "int (length xs)"
  show ?thesis
  proof (cases "start \<le> ?len")
    case True
    then have "take (nat (min (start + n) ?len - start)) (drop (nat start) xs) =
               take (nat n) (drop (nat start) xs)"
      using a by (cases "start + n \<le> ?len") (auto simp: min_def)
    then show ?thesis
      using a True by (simp add: py_slice_def clamp_index_def Let_def min_def)
  next
    case False
    then show ?thesis
      using a by (simp add: py_slice_def clamp_index_def Let_def min_def)
  qed
qed

lemma set_py_slice: "set (py_slice xs a b) \<subseteq> set xs"
proof -
  have "set (take n (drop m xs)) \<subseteq> set xs" for n m
    using set_take_subset[of n "drop m xs"] set_drop_subset[of m xs] by blast
  then show ?thesis by (simp add: py_slice_def Let_def)
qed

lemma set_keywords_for_section: "set (keywords_for_section kps ks i) \<subseteq> set ks"
  using set_py_slice[of ks] by (simp add: keywords_for_section_def Let_def)

text \<open>
  C4, as the code has it. For a chunk size of at least one and a section index from zero
  on (the generator uses 0 to 3), the chunk of a section is the slice of the keyword list
  that starts at \<open>index * keywords_per_section\<close> and has at most
  \<open>keywords_per_section\<close> entries; when that slice is empty the chunk is the first
  slice of that size of the whole list; so the chunk is empty only when the keyword list
  is empty.
\<close>

theorem keywords_for_section_chunk:
  assumes "1 \<le> kps" and "0 \<le> i"
  shows "keywords_for_section kps ks i =
           (if take (nat kps) (drop (nat (i * kps)) ks) \<noteq> []
            then take (nat kps) (drop (nat (i * kps)) ks)
            else take (nat kps) ks) \<and>
         (keywords_for_section kps ks i = [] \<longleftrightarrow> ks = [])"
proof -
  have s: "0 \<le> i * kps" using assms by simp
  have k: "0 \<le> kps" using assms by simp
  have eq: "keywords_for_section kps ks i =
           (if take (nat kps) (drop (nat (i * kps)) ks) \<noteq> []
            then take (nat kps) (drop (nat (i * kps)) ks)
            else take (nat kps) ks)"
    unfolding keywords_for_section_def Let_def py_slice_window[OF s k] py_slice_prefix[OF k]
    by simp
  have "take (nat kps) ks = [] \<longleftrightarrow> ks = []"
    using assms by (simp add: take_eq_Nil)
  then have "keywords_for_section kps ks i = [] \<longleftrightarrow> ks = []"
    unfolding eq by auto
  with eq show ?thesis by blast
qed

theorem keywords_for_section_chunk_witness:
  "(1::int) \<le> 2 \<and> (0::int) \<le> 2 \<and>
   keywords_for_section 2 [ascii ''ab'', ascii ''cd'', ascii ''ef''] 1 = [ascii ''ef''] \<and>
   keywords_for_section 2 [ascii ''ab'', ascii ''cd'', ascii ''ef''] 2 = [ascii ''ab'', ascii ''cd'']"
proof -
  have k: "(1::int) \<le> 2" and i1: "(0::int) \<le> 1" and i2: "(0::int) \<le> 2"
    by simp_all
  show ?thesis
    using keywords_for_section_chunk[OF k i1, of "[ascii ''ab'', ascii ''cd'', ascii ''ef'']"]
      keywords_for_section_chunk[OF k i2, of "[ascii ''ab'', ascii ''cd'', ascii ''ef'']"]
    by simp
qed

text \<open>
  C4 as stated fails for a chunk size of zero, which the constructor accepts: the chunk
  of a non-empty keyword list is then empty.
\<close>

theorem keywords_for_section_zero_chunk:
  "keywords_for_section 0 [ascii ''ab''] 0 = [] \<and> [ascii ''ab''] \<noteq> ([] :: pystr list)"
  by (simp add: keywords_for_section_def py_slice_def clamp_index_def)

section \<open>Sanitized keywords\<close>

lemma dropWhile_rev_prefix:
  "dropWhile P (rev (dropWhile P (rev (dropWhile P s)))) = rev (dropWhile P (rev (dropWhile P s)))"
proof -
  define a where "a = dropWhile P s"
  define b where "b = rev (dropWhile P (rev a))"
  have "a = b @ rev (takeWhile P (rev a))"
  proof -
    have "rev (rev a) = rev (takeWhile P (rev a) @ dropWhile P (rev a))"
      by (simp only: takeWhile_dropWhile_id)
    then show ?thesis by (simp only: b_def rev_append rev_rev_ident)
  qed
  then have hd: "b \<noteq> [] \<Longrightarrow> hd b = hd a"
    by (metis hd_append2)
  have "dropWhile P b = b"
  proof (cases "b = []")
    case True
    then show ?thesis by simp
  next
    case False
    then have "a \<noteq> []" using \<open>a = b @ rev (takeWhile P (rev a))\<close> by auto
    then have "\<not> P (hd a)" unfolding a_def by (rule hd_dropWhile)
    then have "\<not> P (hd b)" using hd False by simp
    then show ?thesis using False by (cases b) simp_all
  qed
  then show ?thesis by (simp add: a_def b_def)
qed

lemma strip_idem: "strip (strip s) = strip s"
  unfolding strip_def by (simp add: dropWhile_rev_prefix)

lemma sanitize_keywords_idem: "sanitize_keywords (sanitize_keywords ks) = sanitize_keywords ks"
  by (induction ks) (simp_all add: sanitize_keywords_def strip_idem)

lemma sanitize_keywords_entries:
  "k \<in> set (sanitize_keywords ks) \<Longrightarrow> k \<noteq> [] \<and> strip k = k"
  by (auto simp: sanitize_keywords_def strip_idem)

text \<open>
  C10. \<open>generate\<close> strips every keyword and discards the entries that are empty or
  whitespace only before it uses them: a keyword list and its sanitized form give the
  same post, and no section's keyword chunk holds an entry that is empty or that has
  surrounding whitespace.
\<close>

theorem generate_sanitizes_keywords:
  "generate kps ttl ks cs = generate kps ttl (sanitize_keywords ks) cs \<and>
   (\<forall>i. \<forall>k \<in> set (keywords_for_section kps (sanitize_keywords ks) i). k \<noteq> [] \<and> strip k = k)"
proof -
  have "generate kps ttl ks cs = generate kps ttl (sanitize_keywords ks) cs"
    by (simp only: generate_def sanitize_keywords_idem)
  moreover have "k \<noteq> [] \<and> strip k = k"
    if "k \<in> set (keywords_for_section kps (sanitize_keywords ks) i)" for i k
    using that set_keywords_for_section[of kps "sanitize_keywords ks" i]
      sanitize_keywords_entries[of k ks] by blast
  ultimately show ?thesis by blast
qed

theorem generate_sanitizes_keywords_witness:
  "sanitize_keywords [ascii '' ab'', ascii ''  '', [], [12288, 99, 100, 10]] =
     [ascii ''ab'', ascii ''cd''] \<and>
   generate 2 (ascii ''T'') [ascii '' ab'', ascii ''  '', [], [12288, 99, 100, 10]]
       \<lparr>highlights = [], pain_points = [], wishes = [], tone = None\<rparr> =
     generate 2 (ascii ''T'') [ascii ''ab'', ascii ''cd'']
       \<lparr>highlights = [], pain_points = [], wishes = [], tone = None\<rparr> \<and>
   keywords_for_section 2
       (sanitize_keywords [ascii '' ab'', ascii ''  '', [], [12288, 99, 100, 10]]) 0 =
     [ascii ''ab'', ascii ''cd'']"
proof -
  let ?ks = "[ascii '' ab'', ascii ''  '', [], [12288, 99, 100, 10]]"
  let ?cs = "\<lparr>highlights = [], pain_points = [], wishes = [], tone = None\<rparr>"
  have s: "sanitize_keywords ?ks = [ascii ''ab'', ascii ''cd'']"
    by (simp add: sanitize_keywords_def eval_str)
  have "generate 2 (ascii ''T'') ?ks ?cs = generate 2 (ascii ''T'') (sanitize_keywords ?ks) ?cs"
    using generate_sanitizes_keywords[of 2 "ascii ''T''" ?ks ?cs] by blast
  then have g: "generate 2 (ascii ''T'') ?ks ?cs =
                  generate 2 (ascii ''T'') [ascii ''ab'', ascii ''cd''] ?cs"
    by (simp only: s)
  have "keywords_for_section 2 (sanitize_keywords ?ks) 0 = [ascii ''ab'', ascii ''cd'']"
    unfolding s by (simp add: keywords_for_section_def py_slice_def clamp_index_def)
  with s g show ?thesis by blast
qed

section \<open>The heading lines of a post\<close>

lemma split_lines_nonempty: "split_lines s \<noteq> []"
  by (induction s) (simp_all split: list.splits)

lemma split_lines_append_nl: "split_lines (a @ 10 # b) = split_lines a @ split_lines b"
proof (induction a)
  case Nil
  show ?case by simp
next
  case (Cons c a)
  show ?case
  proof (cases "c = 10")
    case True
    then show ?thesis using Cons.IH by simp
  next
    case False
    obtain l ls where "split_lines a = l # ls"
      using split_lines_nonempty[of a] by (cases "split_lines a") auto
    then show ?thesis using False Cons.IH by simp
  qed
qed

lemma split_lines_single: "single_line s \<Longrightarrow> split_lines s = [s]"
  by (induction s) (simp_all add: single_line_def)

lemma heading_lines_append_nl:
  "heading_lines (a @ 10 # b) = heading_lines a @ heading_lines b"
  by (simp add: heading_lines_def split_lines_append_nl)

lemma heading_lines_single:
  "single_line s \<Longrightarrow> heading_lines s = (if is_heading_line s then [s] else [])"
  by (simp add: heading_lines_def split_lines_single)

lemma heading_lines_Nil: "heading_lines [] = []"
  by (simp add: heading_lines_def is_heading_line_def ascii_def)

lemma heading_lines_blank_line:
  "heading_lines (a @ 10 # 10 # b) = heading_lines a @ heading_lines b"
  using heading_lines_append_nl[of a "[] @ 10 # b"] heading_lines_append_nl[of "[]" b]
  by (simp add: heading_lines_Nil)

lemma generate_blocks:
  "generate kps ttl ks cs =
     (ascii ''# '' @ ttl) @ 10 # 10 #
     build_outline ttl (sanitize_keywords ks) ! 1 @ 10 # 10 #
     build_outline ttl (sanitize_keywords ks) ! 2 @ 10 # 10 #
     build_section kps sec_intro ttl (keywords_for_section kps (sanitize_keywords ks) 0) cs
       @ 10 # 10 #
     build_section kps sec_problem ttl (keywords_for_section kps (sanitize_keywords ks) 1) cs
       @ 10 # 10 #
     build_section kps sec_info ttl (keywords_for_section kps (sanitize_keywords ks) 2) cs
       @ 10 # 10 #
     build_section kps sec_wrapup ttl (keywords_for_section kps (sanitize_keywords ks) 3) cs"
  by (simp add: generate_def Let_def build_outline_def section_order_def enumerate_eq_zip
        upt_rec[of 0] upt_rec[of 1] upt_rec[of 2] upt_rec[of 3])

lemma build_section_lines:
  "build_section kps name ttl kws cs =
     (ascii ''## '' @ name) @ 10 # (ascii ''### '' @ build_subheading name ttl cs) @ 10 #
     build_paragraph kps name kws cs"
  by (simp add: build_section_def Let_def)

lemma single_line_join:
  "single_line sep \<Longrightarrow> list_all single_line xs \<Longrightarrow> single_line (join sep xs)"
  by (induction sep xs rule: join.induct) (simp_all add: single_line_def)

lemma list_all_py_slice: "list_all P xs \<Longrightarrow> list_all P (py_slice xs a b)"
  using set_py_slice[of xs a b] unfolding list_all_iff by blast

lemma set_strip: "set (strip s) \<subseteq> set s"
proof -
  have "set (dropWhile is_space (rev (dropWhile is_space s))) \<subseteq> set (rev (dropWhile is_space s))"
    by (meson set_dropWhileD subsetI)
  moreover have "set (dropWhile is_space s) \<subseteq> set s"
    by (meson set_dropWhileD subsetI)
  ultimately show ?thesis by (simp add: strip_def)
qed

lemma single_line_strip: "single_line s \<Longrightarrow> single_line (strip s)"
  using set_strip[of s] unfolding single_line_def by blast

lemma single_line_sanitize:
  "list_all single_line ks \<Longrightarrow> list_all single_line (sanitize_keywords ks)"
  by (induction ks) (simp_all add: sanitize_keywords_def single_line_strip)

lemma single_line_chunk:
  "list_all single_line kws \<Longrightarrow> list_all single_line (keywords_for_section kps kws i)"
  using set_keywords_for_section[of kps kws i] unfolding list_all_iff by blast

lemma single_line_scatter:
  "list_all single_line kws \<Longrightarrow> single_line (scatter_keywords kps kws)"
proof -
  assume a: "list_all single_line kws"
  have "single_line (join kw_sep (py_slice kws 0 kps))"
    using a by (intro single_line_join list_all_py_slice) (simp add: single_line_def kw_sep_def)
  then show ?thesis
    by (simp add: scatter_keywords_def) (simp add: single_line_def ph_keywords_def)
qed

lemma single_line_quote:
  "list_all single_line xs \<Longrightarrow> single_line ph \<Longrightarrow>
     single_line (str_or (join (ascii '', '') (py_slice xs 0 2)) ph)"
proof -
  assume a: "list_all single_line xs" "single_line ph"
  have "single_line (join (ascii '', '') (py_slice xs 0 2))"
    using a by (intro single_line_join list_all_py_slice) (simp add: single_line_def ascii_def)
  then show ?thesis using a by (simp add: str_or_def)
qed

lemma single_line_opt_or:
  "(case t of None \<Rightarrow> True | Some s \<Rightarrow> single_line s) \<Longrightarrow> single_line ph \<Longrightarrow>
     single_line (opt_or t ph)"
  by (simp add: opt_or_def split: option.splits)

lemma single_line_paragraph:
  assumes "list_all single_line kws" and "single_line_inputs ttl ks cs"
  shows "single_line (build_paragraph kps name kws cs)"
proof -
  have k: "10 \<notin> set (scatter_keywords kps kws)"
    using single_line_scatter[OF assms(1)] by (simp add: single_line_def)
  have h: "10 \<notin> set (str_or (join (ascii '', '') (py_slice (highlights cs) 0 2)) ph_highlights)"
    using assms(2) single_line_quote[of "highlights cs" ph_highlights]
    by (simp add: single_line_inputs_def single_line_def ph_highlights_def)
  have p: "10 \<notin> set (str_or (join (ascii '', '') (py_slice (pain_points cs) 0 2)) ph_pain_points)"
    using assms(2) single_line_quote[of "pain_points cs" ph_pain_points]
    by (simp add: single_line_inputs_def single_line_def ph_pain_points_def)
  have w: "10 \<notin> set (str_or (join (ascii '', '') (py_slice (wishes cs) 0 2)) ph_wishes)"
    using assms(2) single_line_quote[of "wishes cs" ph_wishes]
    by (simp add: single_line_inputs_def single_line_def ph_wishes_def)
  have t: "10 \<notin> set (opt_or (tone cs) ph_tone)"
    using assms(2) single_line_opt_or[of "tone cs" ph_tone]
    by (simp add: single_line_inputs_def single_line_def ph_tone_def)
  show ?thesis
    unfolding single_line_def build_paragraph_def Let_def
    using k h p w t by simp
qed

lemma single_line_subheading:
  assumes "single_line_inputs ttl ks cs"
  shows "single_line (build_subheading name ttl cs)"
proof -
  have t: "10 \<notin> set (opt_or (tone cs) ph_tone_hint)"
    using assms single_line_opt_or[of "tone cs" ph_tone_hint]
    by (simp add: single_line_inputs_def single_line_def ph_tone_hint_def)
  have "10 \<notin> set ttl"
    using assms by (simp add: single_line_inputs_def single_line_def)
  then show ?thesis
    unfolding single_line_def build_subheading_def Let_def
    using t by simp
qed

lemma paragraph_not_heading: "\<not> is_heading_line (build_paragraph kps name kws cs)"
  by (simp add: is_heading_line_def build_paragraph_def Let_def ascii_def)

lemma subheading_not_heading: "\<not> is_heading_line (ascii ''### '' @ x)"
  by (simp add: is_heading_line_def ascii_def)

lemma title_line_not_heading: "\<not> is_heading_line (ascii ''# '' @ x)"
  by (simp add: is_heading_line_def ascii_def)

lemma outline_not_heading:
  "\<not> is_heading_line (build_outline ttl kws ! 1)" "\<not> is_heading_line (build_outline ttl kws ! 2)"
  by (simp_all add: is_heading_line_def build_outline_def Let_def ascii_def)

lemma heading_is_heading: "is_heading_line (ascii ''## '' @ x)"
  by (simp add: is_heading_line_def ascii_def)

lemma single_line_section_names:
  "single_line (ascii ''## '' @ sec_intro)" "single_line (ascii ''## '' @ sec_problem)"
  "single_line (ascii ''## '' @ sec_info)" "single_line (ascii ''## '' @ sec_wrapup)"
  by (simp_all add: single_line_def ascii_def sec_intro_def sec_problem_def sec_info_def
        sec_wrapup_def)

lemma heading_lines_section:
  assumes "single_line (ascii ''## '' @ name)"
  shows "heading_lines (build_section kps name ttl kws cs) =
           (ascii ''## '' @ name) #
           heading_lines (ascii ''### '' @ build_subheading name ttl cs) @
           heading_lines (build_paragraph kps name kws cs)"
  unfolding build_section_lines heading_lines_append_nl
  by (simp add: heading_lines_single[OF assms] heading_is_heading)

lemma heading_lines_section_single:
  assumes "single_line (ascii ''## '' @ name)" and "list_all single_line kws"
    and "single_line_inputs ttl ks cs"
  shows "heading_lines (build_section kps name ttl kws cs) = [ascii ''## '' @ name]"
proof -
  have "single_line (ascii ''### '' @ build_subheading name ttl cs)"
    using single_line_subheading[OF assms(3), of name] by (simp add: single_line_def ascii_def)
  then have 1: "heading_lines (ascii ''### '' @ build_subheading name ttl cs) = []"
    by (simp only: heading_lines_single subheading_not_heading if_False)
  have 2: "heading_lines (build_paragraph kps name kws cs) = []"
    using single_line_paragraph[OF assms(2,3), of kps name]
    by (simp only: heading_lines_single paragraph_not_heading if_False)
  show ?thesis
    unfolding heading_lines_section[OF assms(1)] 1 2 by simp
qed

lemma subseq_step: "subseq xs ys \<Longrightarrow> subseq (x # xs) (zs @ x # ys)"
  by (simp add: list_emb_append2)

lemma heading_lines_generate:
  "heading_lines (generate kps ttl ks cs) =
     heading_lines (ascii ''# '' @ ttl) @
     heading_lines (build_outline ttl (sanitize_keywords ks) ! 1) @
     heading_lines (build_outline ttl (sanitize_keywords ks) ! 2) @
     heading_lines
       (build_section kps sec_intro ttl (keywords_for_section kps (sanitize_keywords ks) 0) cs) @
     heading_lines
       (build_section kps sec_problem ttl (keywords_for_section kps (sanitize_keywords ks) 1) cs) @
     heading_lines
       (build_section kps sec_info ttl (keywords_for_section kps (sanitize_keywords ks) 2) cs) @
     heading_lines
       (build_section kps sec_wrapup ttl (keywords_for_section kps (sanitize_keywords ks) 3) cs)"
  unfolding generate_blocks heading_lines_blank_line ..

lemma generate_nonempty: "generate kps ttl ks cs \<noteq> []"
  unfolding generate_blocks by (simp add: ascii_def)

lemma subseq_four:
  "subseq [a, b, c, d] (pre @ a # r0 @ b # r1 @ c # r2 @ d # r3)"
  by (intro subseq_step) simp

lemma headings_in_order: "subseq section_headings (heading_lines (generate kps ttl ks cs))"
proof -
  have "\<exists>pre r0 r1 r2 r3. heading_lines (generate kps ttl ks cs) =
          pre @ (ascii ''## '' @ sec_intro) # r0 @ (ascii ''## '' @ sec_problem) # r1 @
          (ascii ''## '' @ sec_info) # r2 @ (ascii ''## '' @ sec_wrapup) # r3"
    unfolding heading_lines_generate
      heading_lines_section[OF single_line_section_names(1)]
      heading_lines_section[OF single_line_section_names(2)]
      heading_lines_section[OF single_line_section_names(3)]
      heading_lines_section[OF single_line_section_names(4)]
    by (metis append_Cons append_assoc)
  then show ?thesis
    unfolding section_headings_def section_order_def
    using subseq_four by (auto simp del: append_assoc)
qed

text \<open>
  C1, as the code has it. The post is never empty and its heading lines always contain
  the four section headings in the fixed order; when no input string (title, keyword,
  highlight, pain point, wish, tone) contains a line feed, the heading lines are exactly
  those four.
\<close>

theorem generate_section_headings:
  "generate kps ttl ks cs \<noteq> [] \<and>
   subseq section_headings (heading_lines (generate kps ttl ks cs)) \<and>
   (single_line_inputs ttl ks cs \<longrightarrow>
      heading_lines (generate kps ttl ks cs) = section_headings)"
proof -
  have "heading_lines (generate kps ttl ks cs) = section_headings"
    if a: "single_line_inputs ttl ks cs"
  proof -
    let ?kws = "sanitize_keywords ks"
    have kws: "list_all single_line ?kws"
      using a by (intro single_line_sanitize) (simp add: single_line_inputs_def)
    have chunk: "list_all single_line (keywords_for_section kps ?kws i)" for i
      using kws by (rule single_line_chunk)
    have "single_line (ascii ''# '' @ ttl)"
      using a by (simp add: single_line_inputs_def single_line_def ascii_def)
    then have 1: "heading_lines (ascii ''# '' @ ttl) = []"
      by (simp only: heading_lines_single title_line_not_heading if_False)
    have "single_line (join (ascii '', '') (py_slice ?kws 0 3))"
      using kws by (intro single_line_join list_all_py_slice) (simp add: single_line_def ascii_def)
    then have "single_line (build_outline ttl ?kws ! 1)"
      by (simp add: build_outline_def Let_def single_line_def ph_seo_hint_def)
    then have 2: "heading_lines (build_outline ttl ?kws ! 1) = []"
      by (simp only: heading_lines_single outline_not_heading if_False)
    have "single_line (build_outline ttl ?kws ! 2)"
      by (simp add: build_outline_def Let_def single_line_def)
    then have 3: "heading_lines (build_outline ttl ?kws ! 2) = []"
      by (simp only: heading_lines_single outline_not_heading if_False)
    show ?thesis
      unfolding heading_lines_generate 1 2 3
        heading_lines_section_single[OF single_line_section_names(1) chunk a]
        heading_lines_section_single[OF single_line_section_names(2) chunk a]
        heading_lines_section_single[OF single_line_section_names(3) chunk a]
        heading_lines_section_single[OF single_line_section_names(4) chunk a]
      by (simp add: section_headings_def section_order_def)
  qed
  then show ?thesis
    using generate_nonempty headings_in_order by blast
qed

theorem generate_section_headings_witness:
  "single_line_inputs (ascii ''T'') [ascii ''ab'', ascii ''cd'', ascii ''ef'']
     \<lparr>highlights = [ascii ''good''], pain_points = [], wishes = [], tone = Some (ascii ''warm'')\<rparr> \<and>
   heading_lines (generate 2 (ascii ''T'') [ascii ''ab'', ascii ''cd'', ascii ''ef'']
     \<lparr>highlights = [ascii ''good''], pain_points = [], wishes = [], tone = Some (ascii ''warm'')\<rparr>) =
     section_headings"
proof -
  let ?cs = "\<lparr>highlights = [ascii ''good''], pain_points = [], wishes = [],
              tone = Some (ascii ''warm'')\<rparr>"
  let ?ks = "[ascii ''ab'', ascii ''cd'', ascii ''ef'']"
  have h: "single_line_inputs (ascii ''T'') ?ks ?cs"
    by (simp add: single_line_inputs_def single_line_def ascii_def)
  then show ?thesis
    using generate_section_headings[of 2 "ascii ''T''" ?ks ?cs] by blast
qed

text \<open>
  C1 as stated fails for a title with a line feed followed by the heading of the
  introduction: the post then has six heading lines, and five of its lines are section
  headings, the heading of the introduction twice.
\<close>

theorem generate_extra_heading:
  "heading_lines (generate 2 (ascii ''x'' @ [10] @ ascii ''## '' @ sec_intro) [] empty_summary) =
     [ascii ''## '' @ sec_intro,
      ascii ''## '' @ sec_intro,
      ascii ''## '' @ sec_intro @
        [47484, 32, 49332, 54196, 48372, 44592, 32, 50948, 54620, 32, 52395, 44152, 51020],
      ascii ''## '' @ sec_problem,
      ascii ''## '' @ sec_info,
      ascii ''## '' @ sec_wrapup] \<and>
   filter (\<lambda>l. l \<in> set section_headings)
     (split_lines (generate 2 (ascii ''x'' @ [10] @ ascii ''## '' @ sec_intro) [] empty_summary)) =
     (ascii ''## '' @ sec_intro) # section_headings"
proof -
  have 1: "heading_lines (generate 2 (ascii ''x'' @ [10] @ ascii ''## '' @ sec_intro) [] empty_summary) =
     [ascii ''## '' @ sec_intro,
      ascii ''## '' @ sec_intro,
      ascii ''## '' @ sec_intro @
        [47484, 32, 49332, 54196, 48372, 44592, 32, 50948, 54620, 32, 52395, 44152, 51020],
      ascii ''## '' @ sec_problem,
      ascii ''## '' @ sec_info,
      ascii ''## '' @ sec_wrapup]"
    unfolding heading_lines_generate
      heading_lines_section[OF single_line_section_names(1)]
      heading_lines_section[OF single_line_section_names(2)]
      heading_lines_section[OF single_line_section_names(3)]
      heading_lines_section[OF single_line_section_names(4)]
    by (simp add: heading_lines_def is_heading_line_def eval_gen eval_str empty_summary_def Let_def)
  have sub: "\<forall>l \<in> set section_headings. is_heading_line l"
    by (simp add: section_headings_def section_order_def heading_is_heading)
  have f: "filter (\<lambda>l. l \<in> set section_headings) (split_lines s) =
          filter (\<lambda>l. l \<in> set section_headings) (heading_lines s)" for s
    unfolding heading_lines_def filter_filter using sub by (intro filter_cong) auto
  have "filter (\<lambda>l. l \<in> set section_headings)
     (split_lines (generate 2 (ascii ''x'' @ [10] @ ascii ''## '' @ sec_intro) [] empty_summary)) =
     (ascii ''## '' @ sec_intro) # section_headings"
    unfolding f 1
    by (simp add: section_headings_def section_order_def ascii_def sec_intro_def sec_problem_def
          sec_info_def sec_wrapup_def)
  with 1 show ?thesis by blast
qed

section \<open>Placeholders for an empty insight\<close>

lemma sublist_skip:
  assumes "c \<notin> set sub"
  shows "sublist sub (a @ c # b) \<longleftrightarrow> sublist sub a \<or> sublist sub b"
proof
  assume "sublist sub (a @ c # b)"
  then consider "sublist sub a" | "sublist sub (c # b)"
    | xs1 xs2 where "sub = xs1 @ xs2" "suffix xs1 a" "prefix xs2 (c # b)"
    unfolding sublist_append by blast
  then show "sublist sub a \<or> sublist sub b"
  proof cases
    case 1
    then show ?thesis by simp
  next
    case 2
    then have "prefix sub (c # b) \<or> sublist sub b"
      by (simp only: sublist_Cons_right)
    moreover have "sublist sub b" if "prefix sub (c # b)"
      using that assms by (cases sub) auto
    ultimately show ?thesis by blast
  next
    case 3
    have "xs2 = []"
      using 3(1,3) assms by (cases xs2) auto
    then have "suffix sub a" using 3 by simp
    then show ?thesis by auto
  qed
next
  assume "sublist sub a \<or> sublist sub b"
  then show "sublist sub (a @ c # b)"
    by (auto simp: sublist_append sublist_Cons_right)
qed

lemma sublist_skip_head:
  "c \<notin> set sub \<Longrightarrow> sub \<noteq> [] \<Longrightarrow> sublist sub (c # b) \<longleftrightarrow> sublist sub b"
  using sublist_skip[of c sub "[]" b] by simp

lemma sublist_same_head:
  "sublist (x # xs) (x # ys) \<longleftrightarrow> prefix xs ys \<or> sublist (x # xs) ys"
  by (simp add: sublist_Cons_right)

lemma sublist_skip_literal:
  "set p \<inter> set sub = {} \<Longrightarrow> sub \<noteq> [] \<Longrightarrow> sublist sub (p @ b) \<longleftrightarrow> sublist sub b"
  by (induction p) (simp_all add: sublist_skip_head)

lemma join_free:
  "set sep \<inter> set sub = {} \<Longrightarrow> sep \<noteq> [] \<Longrightarrow> sub \<noteq> [] \<Longrightarrow>
     \<forall>x \<in> set xs. \<not> sublist sub x \<Longrightarrow> \<not> sublist sub (join sep xs)"
proof (induction sep xs rule: join.induct)
  case (1 sep)
  then show ?case by simp
next
  case (2 sep x)
  then show ?case by simp
next
  case (3 sep x y ys)
  obtain c sep' where sep: "sep = c # sep'"
    using 3(3) by (cases sep) auto
  then have c: "c \<notin> set sub" and s': "set sep' \<inter> set sub = {}"
    using 3(2) by auto
  have "sublist sub (x @ c # sep' @ join sep (y # ys)) \<longleftrightarrow>
          sublist sub x \<or> sublist sub (sep' @ join sep (y # ys))"
    by (rule sublist_skip[OF c])
  also have "\<dots> \<longleftrightarrow> sublist sub x \<or> sublist sub (join sep (y # ys))"
    by (simp only: sublist_skip_literal[OF s' 3(4)])
  finally have "sublist sub (join sep (x # y # ys)) \<longleftrightarrow>
                  sublist sub x \<or> sublist sub (join sep (y # ys))"
    using sep by simp
  moreover have "\<not> sublist sub (join sep (y # ys))"
    using 3 by simp
  ultimately show ?case
    using 3(5) by simp
qed

lemma sublist_strip: "sublist (strip s) s"
proof -
  have "sublist (rev (dropWhile is_space (rev (dropWhile is_space s)))) (dropWhile is_space s)"
    by (simp add: sublist_rev_left)
  then show ?thesis
    unfolding strip_def using sublist_dropWhile[of is_space s] sublist_order.order_trans by blast
qed

lemma free_sanitize:
  "\<forall>k \<in> set ks. \<not> sublist sub k \<Longrightarrow> \<forall>k \<in> set (sanitize_keywords ks). \<not> sublist sub k"
  using sublist_strip sublist_order.order_trans by (fastforce simp: sanitize_keywords_def)

lemma free_scatter:
  assumes "set kw_sep \<inter> set sub = {}" and "sub \<noteq> []" and "\<not> sublist sub ph_keywords"
    and "\<forall>k \<in> set kws. \<not> sublist sub k"
  shows "\<not> sublist sub (scatter_keywords kps kws)"
proof -
  have "\<forall>k \<in> set (py_slice kws 0 kps). \<not> sublist sub k"
    using assms(4) set_py_slice[of kws 0 kps] by blast
  then have "\<not> sublist sub (join kw_sep (py_slice kws 0 kps))"
    using assms(1,2) by (intro join_free) (simp_all add: kw_sep_def)
  then show ?thesis
    using assms(3) by (simp add: scatter_keywords_def)
qed

lemma free_outline_hint:
  assumes "set (ascii '', '') \<inter> set sub = {}" and "sub \<noteq> []" and "\<not> sublist sub ph_seo_hint"
    and "\<forall>k \<in> set kws. \<not> sublist sub k"
  shows "\<exists>h. build_outline ttl kws ! 1 =
           [45, 32, 51452, 51228, 32, 53412, 50892, 46300, 58, 32] @ h \<and> \<not> sublist sub h"
proof -
  have "\<forall>k \<in> set (py_slice kws 0 3). \<not> sublist sub k"
    using assms(4) set_py_slice[of kws 0 3] by blast
  then have "\<not> sublist sub (join (ascii '', '') (py_slice kws 0 3))"
    using assms(1,2) by (intro join_free) (simp_all add: ascii_def)
  then show ?thesis
    using assms(3) by (simp add: build_outline_def Let_def)
qed

lemma generate_free_of_none:
  assumes "\<not> sublist none_text ttl" and "\<forall>k \<in> set ks. \<not> sublist none_text k"
  shows "\<not> sublist none_text (generate kps ttl ks empty_summary)"
proof -
  let ?kws = "sanitize_keywords ks"
  have kws: "\<forall>k \<in> set ?kws. \<not> sublist none_text k"
    using assms(2) by (rule free_sanitize)
  have chunk: "\<forall>k \<in> set (keywords_for_section kps ?kws i). \<not> sublist none_text k" for i
    using kws set_keywords_for_section[of kps ?kws i] by blast
  have sc: "\<not> sublist [78, 111, 110, 101] (scatter_keywords kps (keywords_for_section kps ?kws i))" for i
    using free_scatter[OF _ _ _ chunk[of i], of kps]
    by (simp add: kw_sep_def none_text_def ascii_def ph_keywords_def sublist_skip_head)
  obtain h where h: "build_outline ttl ?kws ! 1 =
       [45, 32, 51452, 51228, 32, 53412, 50892, 46300, 58, 32] @ h" "\<not> sublist [78, 111, 110, 101] h"
    using free_outline_hint[OF _ _ _ kws, of ttl]
    by (auto simp: none_text_def ascii_def ph_seo_hint_def sublist_skip_head)
  have t: "\<not> sublist [78, 111, 110, 101] ttl"
    using assms(1) by (simp add: none_text_def ascii_def)
  show ?thesis
    unfolding generate_blocks build_section_lines h(1)
    using t h(2) sc
    by (simp add: none_text_def ascii_def build_outline_def build_subheading_def
          build_paragraph_def empty_summary_def str_or_def opt_or_def py_slice_def
          clamp_index_def Let_def
          sec_intro_def sec_problem_def sec_info_def sec_wrapup_def
          ph_tone_hint_def ph_highlights_def ph_pain_points_def ph_wishes_def ph_tone_def
          sublist_skip sublist_skip_head)
qed

lemma generate_free_of_empty_quotes:
  assumes "\<not> sublist empty_quotes ttl" and "\<forall>k \<in> set ks. \<not> sublist empty_quotes k"
  shows "\<not> sublist empty_quotes (generate kps ttl ks empty_summary)"
proof -
  let ?kws = "sanitize_keywords ks"
  have kws: "\<forall>k \<in> set ?kws. \<not> sublist empty_quotes k"
    using assms(2) by (rule free_sanitize)
  have chunk: "\<forall>k \<in> set (keywords_for_section kps ?kws i). \<not> sublist empty_quotes k" for i
    using kws set_keywords_for_section[of kps ?kws i] by blast
  have sc: "\<not> sublist [39, 39] (scatter_keywords kps (keywords_for_section kps ?kws i))" for i
    using free_scatter[OF _ _ _ chunk[of i], of kps]
    by (simp add: kw_sep_def empty_quotes_def ph_keywords_def sublist_skip_head)
  obtain h where h: "build_outline ttl ?kws ! 1 =
       [45, 32, 51452, 51228, 32, 53412, 50892, 46300, 58, 32] @ h" "\<not> sublist [39, 39] h"
    using free_outline_hint[OF _ _ _ kws, of ttl]
    by (auto simp: empty_quotes_def ascii_def ph_seo_hint_def sublist_skip_head)
  have t: "\<not> sublist [39, 39] ttl"
    using assms(1) by (simp add: empty_quotes_def)
  show ?thesis
    unfolding generate_blocks build_section_lines h(1)
    using t h(2) sc
    by (simp add: empty_quotes_def ascii_def build_outline_def build_subheading_def
          build_paragraph_def empty_summary_def str_or_def opt_or_def py_slice_def
          clamp_index_def Let_def
          sec_intro_def sec_problem_def sec_info_def sec_wrapup_def
          ph_tone_hint_def ph_highlights_def ph_pain_points_def ph_wishes_def ph_tone_def
          sublist_skip sublist_skip_head sublist_same_head)
qed

text \<open>
  C8, as the code has it. With an empty comment insight every insight slot is filled as
  if the insight held the placeholder phrases: subheadings read as with the tone
  placeholder of the subheading, paragraphs as with the placeholder highlight, pain point,
  wish and tone. The post then contains neither the text \<open>None\<close> nor an empty pair of
  single quotes, provided the title and the keywords do not contain them.
\<close>

theorem empty_insight_placeholders:
  "build_subheading name ttl empty_summary =
     build_subheading name ttl
       \<lparr>highlights = [], pain_points = [], wishes = [], tone = Some ph_tone_hint\<rparr> \<and>
   build_paragraph kps name kws empty_summary =
     build_paragraph kps name kws
       \<lparr>highlights = [ph_highlights], pain_points = [ph_pain_points], wishes = [ph_wishes],
        tone = Some ph_tone\<rparr> \<and>
   (\<not> sublist none_text ttl \<and> (\<forall>k \<in> set ks. \<not> sublist none_text k) \<longrightarrow>
      \<not> sublist none_text (generate kps ttl ks empty_summary)) \<and>
   (\<not> sublist empty_quotes ttl \<and> (\<forall>k \<in> set ks. \<not> sublist empty_quotes k) \<longrightarrow>
      \<not> sublist empty_quotes (generate kps ttl ks empty_summary))"
proof -
  have "build_subheading name ttl empty_summary =
     build_subheading name ttl
       \<lparr>highlights = [], pain_points = [], wishes = [], tone = Some ph_tone_hint\<rparr>"
    by (simp add: build_subheading_def empty_summary_def opt_or_def ph_tone_hint_def)
  moreover have "build_paragraph kps name kws empty_summary =
     build_paragraph kps name kws
       \<lparr>highlights = [ph_highlights], pain_points = [ph_pain_points], wishes = [ph_wishes],
        tone = Some ph_tone\<rparr>"
    by (simp add: build_paragraph_def empty_summary_def opt_or_def str_or_def py_slice_def
          clamp_index_def Let_def ph_highlights_def ph_pain_points_def ph_wishes_def ph_tone_def)
  ultimately show ?thesis
    using generate_free_of_none[of ttl ks kps] generate_free_of_empty_quotes[of ttl ks kps]
    by blast
qed

theorem empty_insight_placeholders_witness:
  "\<not> sublist none_text (ascii ''T'') \<and> \<not> sublist none_text (ascii ''ab'') \<and>
   \<not> sublist none_text (generate 2 (ascii ''T'') [ascii ''ab''] empty_summary) \<and>
   \<not> sublist empty_quotes (ascii ''T'') \<and> \<not> sublist empty_quotes (ascii ''ab'') \<and>
   \<not> sublist empty_quotes (generate 2 (ascii ''T'') [ascii ''ab''] empty_summary)"
proof -
  have n: "\<not> sublist none_text (ascii ''T'')" "\<not> sublist none_text (ascii ''ab'')"
    by (simp_all add: none_text_def ascii_def sublist_skip_head)
  have q: "\<not> sublist empty_quotes (ascii ''T'')" "\<not> sublist empty_quotes (ascii ''ab'')"
    by (simp_all add: empty_quotes_def ascii_def sublist_skip_head)
  have "\<not> sublist none_text (generate 2 (ascii ''T'') [ascii ''ab''] empty_summary)"
    using empty_insight_placeholders[of _ "ascii ''T''" 2 _ "[ascii ''ab'']"] n by simp
  moreover have "\<not> sublist empty_quotes (generate 2 (ascii ''T'') [ascii ''ab''] empty_summary)"
    using empty_insight_placeholders[of _ "ascii ''T''" 2 _ "[ascii ''ab'']"] q by simp
  ultimately show ?thesis
    using n q by blast
qed

text \<open>
  C8 as stated fails for a title that reads \<open>None\<close>: it is copied into the first line
  of the post.
\<close>

theorem generate_title_none:
  "sublist none_text (generate 2 none_text [] empty_summary)"
proof -
  have "\<exists>rest. generate 2 none_text [] empty_summary = ascii ''# '' @ none_text @ rest"
    unfolding generate_blocks by (simp only: append_assoc) blast
  then show ?thesis
    by (auto simp del: append_assoc)
qed

section \<open>The paths of a run\<close>

lemma run_no_source:
  "opt_str (url inp) = [] \<and> opt_str (html inp) = [] \<Longrightarrow> run env inp = ([], Inl ValueError)"
  by (simp add: run_def)

lemma run_parse_error:
  assumes "\<not> (opt_str (url inp) = [] \<and> opt_str (html inp) = [])"
    and "parse_html env (content_source inp) = (t1, Inl e)"
  shows "run env inp = (ParseHtmlCall (content_source inp) # t1, Inl e)"
  using assms by (simp add: run_def Let_def)

lemma run_analysis_error:
  assumes "\<not> (opt_str (url inp) = [] \<and> opt_str (html inp) = [])"
    and "parse_html env (content_source inp) = (t1, Inr page)"
    and "analyze_comments env (case comments inp of None \<Rightarrow> [] | Some c \<Rightarrow> c) = (t2, Inl e)"
  shows "run env inp = (ParseHtmlCall (content_source inp) # t1 @ t2, Inl e)"
  using assms by (simp add: run_def Let_def)

lemma run_title_error:
  assumes "\<not> (opt_str (url inp) = [] \<and> opt_str (html inp) = [])"
    and "parse_html env (content_source inp) = (t1, Inr page)"
    and "analyze_comments env (case comments inp of None \<Rightarrow> [] | Some c \<Rightarrow> c) = (t2, Inr cs)"
    and "generate_title env page cs = (t3, Inl e)"
  shows "run env inp = (ParseHtmlCall (content_source inp) # t1 @ t2 @ t3, Inl e)"
  using assms by (simp add: run_def Let_def)

lemma run_success:
  assumes "\<not> (opt_str (url inp) = [] \<and> opt_str (html inp) = [])"
    and "parse_html env (content_source inp) = (t1, Inr page)"
    and "analyze_comments env (case comments inp of None \<Rightarrow> [] | Some c \<Rightarrow> c) = (t2, Inr cs)"
    and "generate_title env page cs = (t3, Inr ttl)"
  shows "run env inp =
           (ParseHtmlCall (content_source inp) # t1 @ t2 @ t3,
            Inr \<lparr>parsed = page, comment_summary = cs, output_title = ttl,
                 blog_post = generate 2 ttl (derive_keywords page ttl) cs\<rparr>)"
  using assms by (simp add: run_def Let_def)

lemma parse_html_trace: "set (fst (parse_html env source)) \<subseteq> {FetchCall source}"
  by (auto simp: parse_html_def split: sum.splits)

lemma generate_title_trace: "\<exists>a. fst (generate_title env page cs) = [TitleCall a]"
  by (simp add: generate_title_def Let_def)

lemma analyze_no_comments: "analyze_comments env [] = ([], Inr empty_summary)"
  by (simp add: analyze_comments_def)

lemma run_cases:
  obtains
    (no_source) "run env inp = ([], Inl ValueError)"
  | (parse_error) t1 e where
      "run env inp = (ParseHtmlCall (content_source inp) # t1, Inl e)"
      "parse_html env (content_source inp) = (t1, Inl e)"
  | (analysis_error) t1 page t2 e where
      "run env inp = (ParseHtmlCall (content_source inp) # t1 @ t2, Inl e)"
      "parse_html env (content_source inp) = (t1, Inr page)"
      "analyze_comments env (case comments inp of None \<Rightarrow> [] | Some c \<Rightarrow> c) = (t2, Inl e)"
  | (title_error) t1 page t2 cs t3 e where
      "run env inp = (ParseHtmlCall (content_source inp) # t1 @ t2 @ t3, Inl e)"
      "parse_html env (content_source inp) = (t1, Inr page)"
      "analyze_comments env (case comments inp of None \<Rightarrow> [] | Some c \<Rightarrow> c) = (t2, Inr cs)"
      "generate_title env page cs = (t3, Inl e)"
  | (success) t1 page t2 cs t3 ttl where
      "run env inp =
         (ParseHtmlCall (content_source inp) # t1 @ t2 @ t3,
          Inr \<lparr>parsed = page, comment_summary = cs, output_title = ttl,
               blog_post = generate 2 ttl (derive_keywords page ttl) cs\<rparr>)"
      "parse_html env (content_source inp) = (t1, Inr page)"
      "analyze_comments env (case comments inp of None \<Rightarrow> [] | Some c \<Rightarrow> c) = (t2, Inr cs)"
      "generate_title env page cs = (t3, Inr ttl)"
proof (cases "opt_str (url inp) = [] \<and> opt_str (html inp) = []")
  case True
  then show ?thesis using no_source run_no_source by blast
next
  case src: False
  obtain t1 r1 where p: "parse_html env (content_source inp) = (t1, r1)"
    by (cases "parse_html env (content_source inp)") auto
  show ?thesis
  proof (cases r1)
    case (Inl e)
    then show ?thesis using parse_error run_parse_error[OF src] p by blast
  next
    case page: (Inr page)
    obtain t2 r2 where
      a: "analyze_comments env (case comments inp of None \<Rightarrow> [] | Some c \<Rightarrow> c) = (t2, r2)"
      by (cases "analyze_comments env (case comments inp of None \<Rightarrow> [] | Some c \<Rightarrow> c)") auto
    show ?thesis
    proof (cases r2)
      case (Inl e)
      then show ?thesis using analysis_error run_analysis_error[OF src] p page a by blast
    next
      case cs: (Inr cs)
      obtain t3 r3 where g: "generate_title env page cs = (t3, r3)"
        by (cases "generate_title env page cs") auto
      show ?thesis
      proof (cases r3)
        case (Inl e)
        then show ?thesis using title_error run_title_error[OF src] p page a cs g by blast
      next
        case (Inr ttl)
        then show ?thesis using success run_success[OF src] p page a cs g by blast
      qed
    qed
  qed
qed

text \<open>
  C5. When the comments of a run are absent or an empty list, the analyzer is never
  called (the analysis of no comments makes no call and yields the empty summary, and
  no call of the analyzer is in the trace of the run), and the comment summary of the
  output is the empty one.
\<close>

theorem run_without_comments:
  assumes "comments inp = None \<or> comments inp = Some []"
  shows "analyze_comments env [] = ([], Inr empty_summary) \<and>
         (\<forall>c. SummarizeCall c \<notin> set (fst (run env inp))) \<and>
         (\<forall>out. snd (run env inp) = Inr out \<longrightarrow> comment_summary out = empty_summary)"
proof -
  have none: "(case comments inp of None \<Rightarrow> [] | Some c \<Rightarrow> c) = []"
    using assms by auto
  have p: "SummarizeCall c \<notin> set t1" if "parse_html env s = (t1, r)" for c t1 s r
    using parse_html_trace[of env s] that by auto
  have g: "SummarizeCall c \<notin> set t3" if "generate_title env page cs = (t3, r)" for c t3 page cs r
    using generate_title_trace[of env page cs] that by auto
  have "(\<forall>c. SummarizeCall c \<notin> set (fst (run env inp))) \<and>
        (\<forall>out. snd (run env inp) = Inr out \<longrightarrow> comment_summary out = empty_summary)"
  proof (cases rule: run_cases[of env inp])
    case no_source
    then show ?thesis by simp
  next
    case (parse_error t1 e)
    then show ?thesis using p by simp
  next
    case (analysis_error t1 page t2 e)
    then show ?thesis unfolding none analyze_no_comments by simp
  next
    case (title_error t1 page t2 cs t3 e)
    then show ?thesis unfolding none analyze_no_comments using p g by simp
  next
    case (success t1 page t2 cs t3 ttl)
    then show ?thesis unfolding none analyze_no_comments using p g by auto
  qed
  then show ?thesis
    using analyze_no_comments by blast
qed

lemmas eval_run = run_def content_source_def opt_str_def parse_html_def page_of_soup_def
  extract_meta_description_def clean_body_text_def splitlines_def is_line_boundary_def
  analyze_comments_def generate_title_def dict_get_def example_collaborators_def
  derive_keywords_def Let_def

lemma example_run:
  "run example_collaborators
     \<lparr>url = None, html = Some (ascii ''<p>x</p>''), youtube_video_id = None,
      comments = Some []\<rparr> =
     ([ParseHtmlCall (ascii ''<p>x</p>''),
       TitleCall \<lparr>arg_base_title = ascii ''Test'', arg_meta_description = ascii ''desc'',
                  arg_highlights = [], arg_pain_points = [], arg_wishes = [],
                  arg_body_text = None\<rparr>],
      Inr \<lparr>parsed = \<lparr>title = Some (ascii ''Test''), meta_description = Some (ascii ''desc''),
                      body_text = ascii ''body''\<rparr>,
           comment_summary = empty_summary,
           output_title = ascii ''Test'',
           blog_post = generate 2 (ascii ''Test'') [ascii ''Test'', ascii ''desc''] empty_summary\<rparr>)"
  by (simp add: eval_run eval_str empty_summary_def)

theorem run_without_comments_witness:
  "SummarizeCall [] \<notin> set (fst (run example_collaborators
     \<lparr>url = None, html = Some (ascii ''<p>x</p>''), youtube_video_id = None,
      comments = Some []\<rparr>)) \<and>
   snd (run example_collaborators
     \<lparr>url = None, html = Some (ascii ''<p>x</p>''), youtube_video_id = None,
      comments = Some []\<rparr>) =
     Inr \<lparr>parsed = \<lparr>title = Some (ascii ''Test''), meta_description = Some (ascii ''desc''),
                     body_text = ascii ''body''\<rparr>,
          comment_summary = empty_summary,
          output_title = ascii ''Test'',
          blog_post = generate 2 (ascii ''Test'') [ascii ''Test'', ascii ''desc''] empty_summary\<rparr>"
proof -
  let ?inp = "\<lparr>url = None, html = Some (ascii ''<p>x</p>''), youtube_video_id = None,
               comments = Some []\<rparr>"
  have "comments ?inp = None \<or> comments ?inp = Some []" by simp
  from run_without_comments[OF this, of example_collaborators]
  have "SummarizeCall [] \<notin> set (fst (run example_collaborators ?inp))" by blast
  then show ?thesis
    by (simp add: example_run)
qed

section \<open>Normalizing the analyzer's result\<close>

text \<open>
  C2. When comments are supplied, a summary returned by the analyzer is accepted as it
  is; a dict is converted by reading the keys \<open>highlights\<close>, \<open>pain_points\<close>, \<open>wishes\<close>
  and \<open>tone\<close>, an absent key giving the empty list (for \<open>tone\<close>: \<open>None\<close>); any other
  value ends the analysis with a \<open>TypeError\<close>, and a run whose page was parsed then ends
  with that \<open>TypeError\<close> and has no output.
\<close>

theorem analyze_comments_normalizes:
  assumes "cmts \<noteq> []"
  shows
    "(summarize env cmts = Inr (IsSummary s) \<longrightarrow>
        analyze_comments env cmts = ([SummarizeCall cmts], Inr s)) \<and>
     (summarize env cmts = Inr (IsDict d) \<longrightarrow>
        analyze_comments env cmts =
          ([SummarizeCall cmts],
           Inr \<lparr>highlights = (case key_highlights d of None \<Rightarrow> [] | Some v \<Rightarrow> v),
                pain_points = (case key_pain_points d of None \<Rightarrow> [] | Some v \<Rightarrow> v),
                wishes = (case key_wishes d of None \<Rightarrow> [] | Some v \<Rightarrow> v),
                tone = (case key_tone d of None \<Rightarrow> None | Some v \<Rightarrow> v)\<rparr>)) \<and>
     (summarize env cmts = Inr (IsOther v) \<longrightarrow>
        analyze_comments env cmts = ([SummarizeCall cmts], Inl TypeError) \<and>
        (\<forall>inp t1 page.
           \<not> (opt_str (url inp) = [] \<and> opt_str (html inp) = []) \<and>
           parse_html env (content_source inp) = (t1, Inr page) \<and>
           comments inp = Some cmts \<longrightarrow>
           snd (run env inp) = Inl TypeError))"
proof -
  have 1: "analyze_comments env cmts = ([SummarizeCall cmts], Inr s)"
    if "summarize env cmts = Inr (IsSummary s)"
    using that assms by (simp add: analyze_comments_def)
  have 2: "analyze_comments env cmts =
          ([SummarizeCall cmts],
           Inr \<lparr>highlights = (case key_highlights d of None \<Rightarrow> [] | Some v \<Rightarrow> v),
                pain_points = (case key_pain_points d of None \<Rightarrow> [] | Some v \<Rightarrow> v),
                wishes = (case key_wishes d of None \<Rightarrow> [] | Some v \<Rightarrow> v),
                tone = (case key_tone d of None \<Rightarrow> None | Some v \<Rightarrow> v)\<rparr>)"
    if "summarize env cmts = Inr (IsDict d)"
    using that assms by (simp add: analyze_comments_def dict_get_def)
  have 3: "analyze_comments env cmts = ([SummarizeCall cmts], Inl TypeError)"
    if "summarize env cmts = Inr (IsOther v)"
    using that assms by (simp add: analyze_comments_def)
  have 4: "snd (run env inp) = Inl TypeError"
    if "summarize env cmts = Inr (IsOther v)"
      and "\<not> (opt_str (url inp) = [] \<and> opt_str (html inp) = [])"
      and "parse_html env (content_source inp) = (t1, Inr page)"
      and "comments inp = Some cmts" for inp t1 page
  proof -
    have "analyze_comments env (case comments inp of None \<Rightarrow> [] | Some c \<Rightarrow> c) =
            ([SummarizeCall cmts], Inl TypeError)"
      using 3[OF that(1)] that(4) by simp
    from run_analysis_error[OF that(2,3) this] show ?thesis by simp
  qed
  show ?thesis
    using 1 2 3 4 by blast
qed

theorem analyze_comments_normalizes_witness:
  "analyze_comments example_collaborators [ascii ''a''] =
     ([SummarizeCall [ascii ''a'']],
      Inr \<lparr>highlights = [ascii ''great tips''], pain_points = [], wishes = [],
           tone = Some (ascii ''warm'')\<rparr>) \<and>
   analyze_comments example_collaborators [ascii ''b''] =
     ([SummarizeCall [ascii ''b'']],
      Inr \<lparr>highlights = [], pain_points = [], wishes = [ascii ''want video''], tone = None\<rparr>) \<and>
   analyze_comments example_collaborators [ascii ''c''] =
     ([SummarizeCall [ascii ''c'']], Inl TypeError) \<and>
   snd (run example_collaborators
     \<lparr>url = None, html = Some (ascii ''<p>x</p>''), youtube_video_id = None,
      comments = Some [ascii ''c'']\<rparr>) = Inl TypeError"
proof -
  let ?inp = "\<lparr>url = None, html = Some (ascii ''<p>x</p>''), youtube_video_id = None,
               comments = Some [ascii ''c'']\<rparr>"
  let ?page = "\<lparr>title = Some (ascii ''Test''), meta_description = Some (ascii ''desc''),
                body_text = ascii ''body''\<rparr>"
  have a: "summarize example_collaborators [ascii ''a''] =
             Inr (IsSummary \<lparr>highlights = [ascii ''great tips''], pain_points = [],
                             wishes = [], tone = Some (ascii ''warm'')\<rparr>)"
    by (simp add: example_collaborators_def)
  have b: "summarize example_collaborators [ascii ''b''] =
             Inr (IsDict \<lparr>key_highlights = None, key_pain_points = None,
                          key_wishes = Some [ascii ''want video''], key_tone = None\<rparr>)"
    by (simp add: example_collaborators_def ascii_def)
  have c: "summarize example_collaborators [ascii ''c''] = Inr (IsOther (PyInt 5))"
    by (simp add: example_collaborators_def ascii_def)
  have src: "\<not> (opt_str (url ?inp) = [] \<and> opt_str (html ?inp) = [])"
    by (simp add: opt_str_def ascii_def)
  have p: "parse_html example_collaborators (content_source ?inp) = ([], Inr ?page)"
    by (simp add: eval_run eval_str)
  have ne: "[ascii ''a''] \<noteq> []" "[ascii ''b''] \<noteq> []" "[ascii ''c''] \<noteq> []"
    by simp_all
  have "analyze_comments example_collaborators [ascii ''a''] =
     ([SummarizeCall [ascii ''a'']],
      Inr \<lparr>highlights = [ascii ''great tips''], pain_points = [], wishes = [],
           tone = Some (ascii ''warm'')\<rparr>)"
    using analyze_comments_normalizes[OF ne(1), of example_collaborators] a by blast
  moreover have "analyze_comments example_collaborators [ascii ''b''] =
     ([SummarizeCall [ascii ''b'']],
      Inr \<lparr>highlights = [], pain_points = [], wishes = [ascii ''want video''], tone = None\<rparr>)"
    using analyze_comments_normalizes[OF ne(2), of example_collaborators _
        "\<lparr>key_highlights = None, key_pain_points = None,
          key_wishes = Some [ascii ''want video''], key_tone = None\<rparr>"] b
    by simp
  moreover have "analyze_comments example_collaborators [ascii ''c''] =
     ([SummarizeCall [ascii ''c'']], Inl TypeError)"
    using analyze_comments_normalizes[OF ne(3), of example_collaborators] c by blast
  moreover have "snd (run example_collaborators ?inp) = Inl TypeError"
    using analyze_comments_normalizes[OF ne(3), of example_collaborators] c src p
    by (metis PipelineInput.select_convs(4))
  ultimately show ?thesis by blast
qed

section \<open>Invalid input\<close>

lemma strip_Nil: "strip [] = []"
  by (simp add: strip_def)

text \<open>
  C6, as the code has it. With neither a URL nor markup (absent or empty), the run ends
  with a \<open>ValueError\<close> before any call. With a source that is only whitespace, the run
  does call \<open>parse_html\<close>, which raises the \<open>ValueError\<close> itself before it fetches or
  parses anything; the analyzer and the title generator are not called.
\<close>

theorem run_invalid_input:
  "(opt_str (url inp) = [] \<and> opt_str (html inp) = [] \<longrightarrow> run env inp = ([], Inl ValueError)) \<and>
   (strip source = [] \<longrightarrow> parse_html env source = ([], Inl ValueError)) \<and>
   (\<not> (opt_str (url inp) = [] \<and> opt_str (html inp) = []) \<and> strip (content_source inp) = [] \<longrightarrow>
      run env inp = ([ParseHtmlCall (content_source inp)], Inl ValueError))"
proof -
  have p: "parse_html env s = ([], Inl ValueError)" if "strip s = []" for s
    using that by (simp add: parse_html_def)
  have "run env inp = ([ParseHtmlCall (content_source inp)], Inl ValueError)"
    if "\<not> (opt_str (url inp) = [] \<and> opt_str (html inp) = [])" "strip (content_source inp) = []"
    using run_parse_error[OF that(1) p[OF that(2)]] .
  then show ?thesis
    using run_no_source[of inp env] p[of source] by blast
qed

theorem run_invalid_input_witness:
  "run example_collaborators
     \<lparr>url = None, html = Some [], youtube_video_id = None, comments = None\<rparr> =
     ([], Inl ValueError) \<and>
   parse_html example_collaborators [9, 32] = ([], Inl ValueError) \<and>
   run example_collaborators
     \<lparr>url = Some [], html = Some [9, 32], youtube_video_id = None, comments = None\<rparr> =
     ([ParseHtmlCall [9, 32]], Inl ValueError)"
proof -
  let ?i1 = "\<lparr>url = None, html = Some [], youtube_video_id = None, comments = None\<rparr>"
  let ?i2 = "\<lparr>url = Some [], html = Some [9, 32], youtube_video_id = None, comments = None\<rparr>"
  have 1: "opt_str (url ?i1) = [] \<and> opt_str (html ?i1) = []"
    by (simp add: opt_str_def)
  have 2: "strip [9, 32] = []"
    by (simp add: strip_def is_space_def)
  have 3: "\<not> (opt_str (url ?i2) = [] \<and> opt_str (html ?i2) = []) \<and> strip (content_source ?i2) = []"
    by (simp add: opt_str_def content_source_def strip_def is_space_def)
  have c: "content_source ?i2 = [9, 32]"
    by (simp add: opt_str_def content_source_def)
  have "run example_collaborators ?i1 = ([], Inl ValueError)"
    using run_invalid_input[of ?i1 example_collaborators] 1 by blast
  moreover have "parse_html example_collaborators [9, 32] = ([], Inl ValueError)"
    using run_invalid_input[of _ example_collaborators "[9, 32]"] 2 by blast
  moreover have "run example_collaborators ?i2 = ([ParseHtmlCall [9, 32]], Inl ValueError)"
    using run_invalid_input[of ?i2 example_collaborators] 3 unfolding c by blast
  ultimately show ?thesis by blast
qed

text \<open>
  C6 as stated fails for a URL that is a single blank: it passes the check of \<open>run\<close>,
  \<open>parse_html\<close> is called with it, and the \<open>ValueError\<close> comes from there.
\<close>

theorem run_blank_url_calls_parse_html:
  "run example_collaborators
     \<lparr>url = Some (ascii '' ''), html = None, youtube_video_id = None, comments = None\<rparr> =
     ([ParseHtmlCall (ascii '' '')], Inl ValueError)"
  by (simp add: eval_run eval_str)

section \<open>The arguments of the title generator\<close>

lemma page_of_soup_title: "strip (opt_str (title (page_of_soup soup))) = opt_str (title (page_of_soup soup))"
  by (simp add: page_of_soup_def opt_str_def strip_idem strip_Nil split: option.splits)

lemma parse_html_title:
  "parse_html env source = (t, Inr page) \<Longrightarrow> strip (opt_str (title page)) = opt_str (title page)"
  using page_of_soup_title
  by (auto simp: parse_html_def split: if_splits sum.splits)

text \<open>
  C9. For a page that \<open>parse_html\<close> returned: when its title is not empty, the title
  generator is called with that title, the meta description (empty when absent), the
  highlights, pain points and wishes, and without the body text; when its title is empty
  or absent, the title generator is called with an empty base title, the same fields,
  and the body text of the page. The call is the only one \<open>_generate_title\<close> makes, and
  its result is the result of \<open>_generate_title\<close>.
\<close>

theorem generate_title_arguments:
  assumes "parse_html env source = (t, Inr page)"
  shows
    "(opt_str (title page) \<noteq> [] \<longrightarrow>
        generate_title env page cs =
          ([TitleCall \<lparr>arg_base_title = opt_str (title page),
                       arg_meta_description = opt_str (meta_description page),
                       arg_highlights = highlights cs, arg_pain_points = pain_points cs,
                       arg_wishes = wishes cs, arg_body_text = None\<rparr>],
           title_generate env
             \<lparr>arg_base_title = opt_str (title page),
              arg_meta_description = opt_str (meta_description page),
              arg_highlights = highlights cs, arg_pain_points = pain_points cs,
              arg_wishes = wishes cs, arg_body_text = None\<rparr>)) \<and>
     (opt_str (title page) = [] \<longrightarrow>
        generate_title env page cs =
          ([TitleCall \<lparr>arg_base_title = [],
                       arg_meta_description = opt_str (meta_description page),
                       arg_highlights = highlights cs, arg_pain_points = pain_points cs,
                       arg_wishes = wishes cs, arg_body_text = Some (body_text page)\<rparr>],
           title_generate env
             \<lparr>arg_base_title = [],
              arg_meta_description = opt_str (meta_description page),
              arg_highlights = highlights cs, arg_pain_points = pain_points cs,
              arg_wishes = wishes cs, arg_body_text = Some (body_text page)\<rparr>))"
  using parse_html_title[OF assms]
  by (simp add: generate_title_def Let_def strip_Nil)

theorem generate_title_arguments_witness:
  "parse_html example_collaborators (ascii ''<p>x</p>'') =
     ([], Inr \<lparr>title = Some (ascii ''Test''), meta_description = Some (ascii ''desc''),
               body_text = ascii ''body''\<rparr>) \<and>
   generate_title example_collaborators
     \<lparr>title = Some (ascii ''Test''), meta_description = Some (ascii ''desc''),
      body_text = ascii ''body''\<rparr>
     \<lparr>highlights = [ascii ''great tips''], pain_points = [], wishes = [], tone = None\<rparr> =
     ([TitleCall \<lparr>arg_base_title = ascii ''Test'', arg_meta_description = ascii ''desc'',
                  arg_highlights = [ascii ''great tips''], arg_pain_points = [],
                  arg_wishes = [], arg_body_text = None\<rparr>],
      Inr (ascii ''Test'')) \<and>
   parse_html example_collaborators (ascii ''<p>y</p>'') =
     ([], Inr \<lparr>title = None, meta_description = None, body_text = ascii ''<p>y</p>''\<rparr>) \<and>
   generate_title example_collaborators
     \<lparr>title = None, meta_description = None, body_text = ascii ''<p>y</p>''\<rparr>
     \<lparr>highlights = [ascii ''great tips''], pain_points = [], wishes = [], tone = None\<rparr> =
     ([TitleCall \<lparr>arg_base_title = [], arg_meta_description = [],
                  arg_highlights = [ascii ''great tips''], arg_pain_points = [],
                  arg_wishes = [], arg_body_text = Some (ascii ''<p>y</p>'')\<rparr>],
      Inr [])"
proof -
  let ?p1 = "\<lparr>title = Some (ascii ''Test''), meta_description = Some (ascii ''desc''),
              body_text = ascii ''body''\<rparr>"
  let ?p2 = "\<lparr>title = None, meta_description = None, body_text = ascii ''<p>y</p>''\<rparr>"
  let ?cs = "\<lparr>highlights = [ascii ''great tips''], pain_points = [], wishes = [], tone = None\<rparr>"
  have 1: "parse_html example_collaborators (ascii ''<p>x</p>'') = ([], Inr ?p1)"
    by (simp add: eval_run eval_str)
  have 2: "parse_html example_collaborators (ascii ''<p>y</p>'') = ([], Inr ?p2)"
    by (simp add: eval_run eval_str)
  have t1: "opt_str (title ?p1) \<noteq> []" and t2: "opt_str (title ?p2) = []"
    by (simp_all add: opt_str_def ascii_def)
  have "generate_title example_collaborators ?p1 ?cs =
     ([TitleCall \<lparr>arg_base_title = ascii ''Test'', arg_meta_description = ascii ''desc'',
                  arg_highlights = [ascii ''great tips''], arg_pain_points = [],
                  arg_wishes = [], arg_body_text = None\<rparr>],
      Inr (ascii ''Test''))"
    using generate_title_arguments[OF 1, of ?cs] t1
    by (simp add: opt_str_def example_collaborators_def)
  moreover have "generate_title example_collaborators ?p2 ?cs =
     ([TitleCall \<lparr>arg_base_title = [], arg_meta_description = [],
                  arg_highlights = [ascii ''great tips''], arg_pain_points = [],
                  arg_wishes = [], arg_body_text = Some (ascii ''<p>y</p>'')\<rparr>],
      Inr [])"
    using generate_title_arguments[OF 2, of ?cs] t2
    by (simp add: opt_str_def example_collaborators_def)
  ultimately show ?thesis
    using 1 2 by blast
qed

end
